theory Spec2Isabelle
  imports
    Main
    "HOL-Library.Multiset"
    "HOL-Library.Char_ord"
    "HOL-Library.List_Lexorder"
    "HOL-Library.Option_ord"
    "HOL-Library.Product_Lexorder"
begin

section \<open>Task store (tasks\_manager.py)\<close>

text \<open>
  One row of the \<^verbatim>\<open>tasks\<close> table. The columns are those of the
  \<^verbatim>\<open>CREATE TABLE\<close> statement of \<^verbatim>\<open>init_database\<close>;
  a nullable column is an \<open>option\<close>. \<^verbatim>\<open>completed\<close> is the
  INTEGER column itself (0 pending, 1 completed), \<^verbatim>\<open>due_date\<close> the display
  string and \<^verbatim>\<open>due_ts\<close> the epoch seconds computed from it.
\<close>

record task =
  task_id :: int
  task_text :: string
  due_date :: "string option"
  due_ts :: "int option"
  completed :: int
  priority :: string
  created_at :: string
  completed_at :: "string option"

text \<open>
  The database file: the rows of the table in rowid order, and the counter that SQLite
  keeps in \<^verbatim>\<open>sqlite_sequence\<close> for the AUTOINCREMENT key.
\<close>

record db =
  rows :: "task list"
  seq :: int

text \<open>
  Every method opens its own connection and runs inside
  \<^verbatim>\<open>try: ... except sqlite3.Error\<close>. The argument \<open>io\<close> of a method is the
  \<^verbatim>\<open>sqlite3.Error\<close> that the connection raises during this call, if any
  (\<open>None\<close>: the statements run). A statement that raised has changed nothing: the
  connection is dropped without a commit.
\<close>

datatype sqlite_error = OperationalError | DatabaseError

type_synonym fault = "sqlite_error option"

text \<open>
  What a call does when an exception can leave it: it raises, or it returns a value.
\<close>

datatype 'a outcome = Raises | Returns 'a

subsection \<open>complete\_task\<close>

text \<open>
  \<^verbatim>\<open>UPDATE tasks SET completed = 1, completed_at = CURRENT_TIMESTAMP
  WHERE id = ? AND completed = 0\<close>: the rows the statement matches, and the table after it.
\<close>

definition complete_matches :: "int \<Rightarrow> task \<Rightarrow> bool" where
  "complete_matches tid t = (task_id t = tid \<and> completed t = 0)"

definition update_complete :: "string \<Rightarrow> int \<Rightarrow> task list \<Rightarrow> task list" where
  "update_complete current_timestamp tid ts =
     map (\<lambda>t. if complete_matches tid t
               then t\<lparr>completed := 1, completed_at := Some current_timestamp\<rparr>
               else t) ts"

definition rowcount_complete :: "int \<Rightarrow> task list \<Rightarrow> nat" where
  "rowcount_complete tid ts = length (filter (complete_matches tid) ts)"

text \<open>
  \<^verbatim>\<open>complete_task\<close> from the point where the id is bound to the statement:
  True after an update that changed a row, False when no row matched and False when the
  connection raised.
\<close>

definition complete_task :: "fault \<Rightarrow> string \<Rightarrow> db \<Rightarrow> int \<Rightarrow> bool \<times> db" where
  "complete_task io current_timestamp d tid =
     (case io of
        Some e \<Rightarrow> (False, d)
      | None \<Rightarrow>
          if rowcount_complete tid (rows d) > 0
          then (True, d\<lparr>rows := update_complete current_timestamp tid (rows d)\<rparr>)
          else (False, d))"

text \<open>
  The call \<^verbatim>\<open>complete_task(task_id)\<close> as a caller makes it, with a Python
  integer of any size. SQLite binds 64-bit integers: for an id outside that range
  \<^verbatim>\<open>cursor.execute\<close> raises OverflowError before the UPDATE runs, and
  \<^verbatim>\<open>except sqlite3.Error\<close> does not catch it. A fault of the connection is
  one met before the id is bound (on connecting, or in the CREATE TABLE statement).
\<close>

definition bindable :: "int \<Rightarrow> bool" where
  "bindable i = (- (2 ^ 63) \<le> i \<and> i < 2 ^ 63)"

definition call_complete_task :: "fault \<Rightarrow> string \<Rightarrow> db \<Rightarrow> int \<Rightarrow> (bool \<times> db) outcome" where
  "call_complete_task io current_timestamp d tid =
     (case io of
        Some e \<Rightarrow> Returns (complete_task io current_timestamp d tid)
      | None \<Rightarrow>
          if bindable tid then Returns (complete_task io current_timestamp d tid)
          else Raises)"

subsection \<open>Dates and times of the Python library\<close>

text \<open>
  A \<^verbatim>\<open>datetime\<close>: its calendar fields read as microseconds since
  1970-01-01T00:00:00 on the wall clock, and the UTC offset of its \<^verbatim>\<open>tzinfo\<close>
  in microseconds (\<open>None\<close> for a naive value, \<open>Some 0\<close> for UTC). Years outside
  1..9999, where Python raises OverflowError, and the rounding of the float that
  \<^verbatim>\<open>timestamp()\<close> returns are outside the model.
\<close>

record datetime =
  wall :: int
  tzoffset :: "int option"

text \<open>
  A time zone (a pytz zone, or the local zone of the machine): the offset in force at a
  wall-clock time of the zone, used by \<^verbatim>\<open>localize\<close> and by
  \<^verbatim>\<open>timestamp()\<close> on a naive value, and the offset in force at a UTC time,
  used by \<^verbatim>\<open>astimezone\<close>.
\<close>

record timezone =
  offset_at_wall :: "int \<Rightarrow> int"
  offset_at_utc :: "int \<Rightarrow> int"

text \<open>
  What the code takes from the standard library: \<^verbatim>\<open>datetime.fromisoformat\<close>
  (\<open>None\<close> when it raises ValueError), \<^verbatim>\<open>isoformat\<close>,
  \<^verbatim>\<open>strftime("%b %d at %I:%M %p %Z")\<close> and the local zone of the machine.
\<close>

record pylib =
  fromisoformat :: "string \<Rightarrow> datetime option"
  isoformat :: "datetime \<Rightarrow> string"
  strftime :: "datetime \<Rightarrow> string"
  local_zone :: timezone

text \<open>\<^verbatim>\<open>s.replace("Z", "+00:00")\<close>\<close>

definition replace_Z :: "string \<Rightarrow> string" where
  "replace_Z s = concat (map (\<lambda>c. if c = CHR ''Z'' then ''+00:00'' else [c]) s)"

text \<open>The instant of a datetime in microseconds since the epoch, as \<^verbatim>\<open>timestamp()\<close>
  reads it: a naive value is taken in the local zone.\<close>

definition instant_us :: "timezone \<Rightarrow> datetime \<Rightarrow> int" where
  "instant_us local dt =
     (case tzoffset dt of
        Some off \<Rightarrow> wall dt - off
      | None \<Rightarrow> wall dt - offset_at_wall local (wall dt))"

text \<open>\<^verbatim>\<open>int(dt.timestamp())\<close>: \<^verbatim>\<open>int\<close> truncates towards zero.\<close>

definition int_timestamp :: "timezone \<Rightarrow> datetime \<Rightarrow> int" where
  "int_timestamp local dt =
     (let us = instant_us local dt
      in if us \<ge> 0 then us div 1000000 else - ((- us) div 1000000))"

subsection \<open>add\_task\<close>

text \<open>
  The epoch seconds of a due-date string: \<open>None\<close> for no string, for the empty string
  (\<^verbatim>\<open>if due_date:\<close>) and for a string that \<^verbatim>\<open>fromisoformat\<close> rejects.
\<close>

definition compute_due_ts :: "pylib \<Rightarrow> string option \<Rightarrow> int option" where
  "compute_due_ts lib due =
     (case due of
        None \<Rightarrow> None
      | Some s \<Rightarrow>
          if s = [] then None
          else (case fromisoformat lib (replace_Z s) of
                  None \<Rightarrow> None
                | Some dt \<Rightarrow> Some (int_timestamp (local_zone lib) dt)))"

text \<open>
  The key that AUTOINCREMENT assigns: one more than the largest key the table has ever
  held.
\<close>

definition next_rowid :: "db \<Rightarrow> int" where
  "next_rowid d = fold max (map task_id (rows d)) (seq d) + 1"

text \<open>
  \<^verbatim>\<open>INSERT INTO tasks (text, due_date, due_ts, priority) VALUES (?, ?, ?, ?)\<close>;
  the other columns take their defaults. The method returns \<^verbatim>\<open>lastrowid\<close>,
  and -1 when the connection raised.
\<close>

definition add_task ::
  "fault \<Rightarrow> pylib \<Rightarrow> string \<Rightarrow> db \<Rightarrow> string \<Rightarrow> string option \<Rightarrow> string \<Rightarrow> int \<times> db" where
  "add_task io lib current_timestamp d txt due prio =
     (case io of
        Some e \<Rightarrow> (- 1, d)
      | None \<Rightarrow>
          let ts = compute_due_ts lib due;
              new_id = next_rowid d;
              row = \<lparr>task_id = new_id, task_text = txt, due_date = due, due_ts = ts,
                     completed = 0, priority = prio, created_at = current_timestamp,
                     completed_at = None\<rparr>
          in (new_id, \<lparr>rows = rows d @ [row], seq = new_id\<rparr>))"

subsection \<open>get\_task\<close>

text \<open>The dictionary that \<^verbatim>\<open>get_task\<close> builds, key by key.\<close>

record task_view =
  tv_id :: int
  tv_text :: string
  tv_due_date :: "string option"
  tv_completed :: bool
  tv_priority :: string
  tv_created_at :: string
  tv_completed_at :: "string option"

definition view_of :: "task \<Rightarrow> task_view" where
  "view_of t = \<lparr>tv_id = task_id t, tv_text = task_text t, tv_due_date = due_date t,
                tv_completed = (completed t \<noteq> 0), tv_priority = priority t,
                tv_created_at = created_at t, tv_completed_at = completed_at t\<rparr>"

text \<open>
  \<^verbatim>\<open>SELECT ... FROM tasks WHERE id = ?\<close> and \<^verbatim>\<open>fetchone()\<close>: the first
  row with the id, \<open>None\<close> when there is none, and \<open>None\<close> when the connection
  raised.
\<close>

definition get_task :: "fault \<Rightarrow> db \<Rightarrow> int \<Rightarrow> task_view option" where
  "get_task io d tid =
     (case io of
        Some e \<Rightarrow> None
      | None \<Rightarrow>
          (case find (\<lambda>t. task_id t = tid) (rows d) of
             Some row \<Rightarrow> Some (view_of row)
           | None \<Rightarrow> None))"

subsection \<open>delete\_task\<close>

definition delete_task :: "fault \<Rightarrow> db \<Rightarrow> int \<Rightarrow> bool \<times> db" where
  "delete_task io d tid =
     (case io of
        Some e \<Rightarrow> (False, d)
      | None \<Rightarrow>
          if length (filter (\<lambda>t. task_id t = tid) (rows d)) > 0
          then (True, d\<lparr>rows := filter (\<lambda>t. task_id t \<noteq> tid) (rows d)\<rparr>)
          else (False, d))"

subsection \<open>get\_pending\_tasks\<close>

record pending_task =
  pt_id :: int
  pt_text :: string
  pt_due_date :: "string option"
  pt_priority :: string
  pt_created_at :: string

definition pending_of :: "task \<Rightarrow> pending_task" where
  "pending_of t = \<lparr>pt_id = task_id t, pt_text = task_text t, pt_due_date = due_date t,
                   pt_priority = priority t, pt_created_at = created_at t\<rparr>"

text \<open>
  \<^verbatim>\<open>CASE priority WHEN 'high' THEN 1 WHEN 'medium' THEN 2 WHEN 'low' THEN 3 END\<close>:
  with no ELSE branch, any other priority gives NULL.
\<close>

definition priority_rank :: "string \<Rightarrow> nat option" where
  "priority_rank p =
     (if p = ''high'' then Some 1
      else if p = ''medium'' then Some 2
      else if p = ''low'' then Some 3
      else None)"

text \<open>
  The three terms of the ORDER BY clause. SQLite sorts NULL before every value in
  ascending order, which is the order of \<open>option\<close> (\<open>None\<close> least); it compares
  TEXT byte by byte, a proper prefix first, which is the lexicographic order of
  \<open>string\<close>. The sort is modelled as stable: where SQLite leaves the order of rows
  with equal keys open, the model keeps rowid order.
\<close>

definition pending_key :: "task \<Rightarrow> nat option \<times> string option \<times> string" where
  "pending_key t = (priority_rank (priority t), due_date t, created_at t)"

definition select_pending :: "task list \<Rightarrow> task list" where
  "select_pending ts = sort_key pending_key (filter (\<lambda>t. completed t = 0) ts)"

definition get_pending_tasks :: "fault \<Rightarrow> db \<Rightarrow> pending_task list" where
  "get_pending_tasks io d =
     (case io of
        Some e \<Rightarrow> []
      | None \<Rightarrow> map pending_of (select_pending (rows d)))"

subsection \<open>get\_overdue\_tasks\<close>

record overdue_task =
  ot_id :: int
  ot_text :: string
  ot_due_date :: "string option"
  ot_priority :: string

definition overdue_of :: "task \<Rightarrow> overdue_task" where
  "overdue_of t = \<lparr>ot_id = task_id t, ot_text = task_text t, ot_due_date = due_date t,
                   ot_priority = priority t\<rparr>"

text \<open>
  \<^verbatim>\<open>WHERE completed = 0 AND due_ts IS NOT NULL AND due_ts < ?\<close>
\<close>

definition is_overdue :: "int \<Rightarrow> task \<Rightarrow> bool" where
  "is_overdue now_ts t =
     (completed t = 0 \<and> (case due_ts t of None \<Rightarrow> False | Some ts \<Rightarrow> ts < now_ts))"

text \<open>\<^verbatim>\<open>... ORDER BY due_ts ASC\<close>, stable as above.\<close>

definition select_overdue :: "int \<Rightarrow> task list \<Rightarrow> task list" where
  "select_overdue now_ts ts = sort_key due_ts (filter (is_overdue now_ts) ts)"

text \<open>
  \<^verbatim>\<open>get_overdue_tasks\<close> from the query on. The bound \<open>now_ts\<close> is the
  value that \<^verbatim>\<open>int(datetime.utcnow().timestamp())\<close> gave on this call; the
  list is empty when the connection raised.
\<close>

definition get_overdue_tasks :: "fault \<Rightarrow> int \<Rightarrow> db \<Rightarrow> overdue_task list" where
  "get_overdue_tasks io now_ts d =
     (case io of
        Some e \<Rightarrow> []
      | None \<Rightarrow> map overdue_of (select_overdue now_ts (rows d)))"

text \<open>
  The first line of the method, \<^verbatim>\<open>now_ts = int(datetime.utcnow().timestamp())\<close>.
  At the instant \<open>clock\<close> (microseconds since the epoch) \<^verbatim>\<open>utcnow()\<close>
  returns the wall clock of UTC as a naive datetime, and \<^verbatim>\<open>timestamp()\<close>
  reads a naive datetime in the local zone of the machine.
\<close>

definition utcnow :: "int \<Rightarrow> datetime" where
  "utcnow clock = \<lparr>wall = clock, tzoffset = None\<rparr>"

definition utcnow_timestamp :: "timezone \<Rightarrow> int \<Rightarrow> int" where
  "utcnow_timestamp local clock = int_timestamp local (utcnow clock)"

text \<open>
  The call \<^verbatim>\<open>get_overdue_tasks()\<close> as a caller makes it, on a machine in the
  zone \<open>local\<close> at the instant \<open>clock\<close>.
\<close>

definition call_get_overdue_tasks :: "fault \<Rightarrow> timezone \<Rightarrow> int \<Rightarrow> db \<Rightarrow> overdue_task list" where
  "call_get_overdue_tasks io local clock d =
     get_overdue_tasks io (utcnow_timestamp local clock) d"

section \<open>Reminder scan (scheduler.py)\<close>

text \<open>
  The surroundings of one scan pass. \<open>is_configured\<close> and \<open>send_reminder\<close> are the
  two methods of the message sender that the pass calls; \<open>send_reminder\<close> gets the
  text, the due date and the id of the task, which are fields of the dictionary it is
  given here. \<open>query_io\<close> is the fault of the connection that
  \<^verbatim>\<open>get_overdue_tasks\<close> opens and \<open>complete_io i\<close> that of the connection that
  \<^verbatim>\<open>complete_task(i)\<close> opens; \<open>now_ts\<close> and \<open>complete_time i\<close> are the
  readings of the clock in those two calls.
\<close>

record scan_env =
  is_configured :: bool
  send_reminder :: "overdue_task \<Rightarrow> bool outcome"
  query_io :: fault
  complete_io :: "int \<Rightarrow> fault"
  now_ts :: int
  complete_time :: "int \<Rightarrow> string"

text \<open>
  The variables of the loop (\<^verbatim>\<open>sent_count\<close>, \<^verbatim>\<open>seen\<close>), the database,
  and the calls of \<open>send_reminder\<close> made so far, oldest first.
\<close>

record scan_state =
  sent_count :: nat
  seen :: "int set"
  store :: db
  calls :: "overdue_task list"

text \<open>
  The body of \<^verbatim>\<open>for task in due_tasks\<close>. A task whose id was seen is skipped.
  Otherwise \<open>send_reminder\<close> is called inside \<^verbatim>\<open>try\<close>: when it returns True the
  count goes up and \<^verbatim>\<open>complete_task\<close> is called, its result dropped; when it
  returns False or raises, the failure is logged and the loop goes on.
  \<^verbatim>\<open>complete_task\<close> catches \<^verbatim>\<open>sqlite3.Error\<close> itself, so the inner
  handler around it has nothing to catch in this model.
\<close>

definition process_task :: "scan_env \<Rightarrow> overdue_task \<Rightarrow> scan_state \<Rightarrow> scan_state" where
  "process_task env task st =
     (if ot_id task \<in> seen st then st
      else
        let st1 = st\<lparr>seen := insert (ot_id task) (seen st), calls := calls st @ [task]\<rparr>
        in case send_reminder env task of
             Raises \<Rightarrow> st1
           | Returns False \<Rightarrow> st1
           | Returns True \<Rightarrow>
               st1\<lparr>sent_count := sent_count st1 + 1,
                    store := snd (complete_task (complete_io env (ot_id task))
                                    (complete_time env (ot_id task)) (store st1) (ot_id task))\<rparr>)"

fun send_loop :: "scan_env \<Rightarrow> overdue_task list \<Rightarrow> scan_state \<Rightarrow> scan_state" where
  "send_loop env [] st = st"
| "send_loop env (task # due_tasks) st = send_loop env due_tasks (process_task env task st)"

definition start_state :: "db \<Rightarrow> scan_state" where
  "start_state d = \<lparr>sent_count = 0, seen = {}, store = d, calls = []\<rparr>"

text \<open>
  One pass, as both entry points run it: nothing when the sender is not configured or no
  task is overdue, the loop over the overdue tasks otherwise. The two functions of the
  source hold the same statements and differ in their log messages and in what they
  return.
\<close>

definition scan_pass :: "scan_env \<Rightarrow> db \<Rightarrow> scan_state" where
  "scan_pass env d =
     (if \<not> is_configured env then start_state d
      else
        let due_tasks = get_overdue_tasks (query_io env) (now_ts env) d
        in if due_tasks = [] then start_state d
           else send_loop env due_tasks (start_state d))"

text \<open>\<^verbatim>\<open>_check_and_send_reminders\<close> returns nothing: what is left of the pass is the
  database and the reminders sent.\<close>

definition check_and_send_reminders :: "scan_env \<Rightarrow> db \<Rightarrow> db \<times> overdue_task list" where
  "check_and_send_reminders env d = (let st = scan_pass env d in (store st, calls st))"

text \<open>\<^verbatim>\<open>run_reminder_scan_now\<close> returns \<^verbatim>\<open>sent_count\<close>.\<close>

definition run_reminder_scan_now :: "scan_env \<Rightarrow> db \<Rightarrow> nat \<times> db \<times> overdue_task list" where
  "run_reminder_scan_now env d =
     (let st = scan_pass env d in (sent_count st, store st, calls st))"

section \<open>Example data\<close>

definition mk_task :: "int \<Rightarrow> string \<Rightarrow> string option \<Rightarrow> int option \<Rightarrow> int \<Rightarrow> string \<Rightarrow> string \<Rightarrow> task" where
  "mk_task i txt due ts c prio created =
     \<lparr>task_id = i, task_text = txt, due_date = due, due_ts = ts, completed = c,
      priority = prio, created_at = created,
      completed_at = (if c = 0 then None else Some created)\<rparr>"

text \<open>Five tasks: two overdue at 1705314000 (10:20 UTC on 2024-01-15), one due later, one
  without a due time, one overdue but completed.\<close>

definition example_db :: db where
  "example_db =
     \<lparr>rows =
        [mk_task 1 ''call mom'' (Some ''2024-01-15T10:00:00+00:00'') (Some 1705312800) 0
           ''medium'' ''2024-01-15 08:00:00'',
         mk_task 2 ''pay rent'' (Some ''2024-01-15T09:00:00+00:00'') (Some 1705309200) 0
           ''high'' ''2024-01-15 08:01:00'',
         mk_task 3 ''book flight'' (Some ''2024-01-16T09:00:00+00:00'') (Some 1705395600) 0
           ''low'' ''2024-01-15 08:02:00'',
         mk_task 4 ''buy milk'' None None 0 ''medium'' ''2024-01-15 08:03:00'',
         mk_task 5 ''water plants'' (Some ''2024-01-14T09:00:00+00:00'') (Some 1705222800) 1
           ''medium'' ''2024-01-14 08:00:00''],
      seq = 5\<rparr>"

section \<open>The order of the pending listing in the words of the specification\<close>

text \<open>
  The specification lists pending tasks "by due time ascending (nulls last)" within one
  priority: no task without a due date stands before a task of the same priority that
  has one.
\<close>

definition spec_nulls_last :: "pending_task list \<Rightarrow> bool" where
  "spec_nulls_last ps =
     sorted_wrt (\<lambda>a b. pt_priority a = pt_priority b
                     \<longrightarrow> \<not> (pt_due_date a = None \<and> pt_due_date b \<noteq> None)) ps"

text \<open>A library that reads one ISO string, and a machine on UTC.\<close>

definition utc_zone :: timezone where
  "utc_zone = \<lparr>offset_at_wall = (\<lambda>w. 0), offset_at_utc = (\<lambda>u. 0)\<rparr>"

definition example_lib :: pylib where
  "example_lib =
     \<lparr>fromisoformat =
        (\<lambda>s. if s = ''2024-01-15T10:00:00+00:00''
             then Some \<lparr>wall = 1705312800000000, tzoffset = Some 0\<rparr> else None),
      isoformat =
        (\<lambda>dt. if dt = \<lparr>wall = 1705312800000000, tzoffset = Some 0\<rparr>
              then ''2024-01-15T10:00:00+00:00'' else ''other''),
      strftime = (\<lambda>dt. ''Jan 15 at 04:00 AM CST''),
      local_zone = utc_zone\<rparr>"

text \<open>A pass at 10:20 UTC on 2024-01-15 in which every reminder is sent and the store
  answers, and one in which sending the reminder for task 2 raises.\<close>

definition example_env :: scan_env where
  "example_env =
     \<lparr>is_configured = True, send_reminder = (\<lambda>t. Returns True), query_io = None,
      complete_io = (\<lambda>i. None), now_ts = 1705314000,
      complete_time = (\<lambda>i. ''2024-01-15 10:20:00'')\<rparr>"

definition failing_env :: scan_env where
  "failing_env =
     example_env\<lparr>send_reminder := (\<lambda>t. if ot_id t = 2 then Raises else Returns True)\<rparr>"

text \<open>The example store with a sixth task, due at 12:00 UTC on 2024-01-15 (1705320000).\<close>

definition later_db :: db where
  "later_db =
     \<lparr>rows = rows example_db @
        [mk_task 6 ''team call'' (Some ''2024-01-15T12:00:00+00:00'') (Some 1705320000) 0
           ''medium'' ''2024-01-15 08:04:00''],
      seq = 6\<rparr>"

text \<open>The dictionaries of tasks 1 and 2 of the example store, as the overdue query
  returns them.\<close>

definition reminder1 :: overdue_task where
  "reminder1 = \<lparr>ot_id = 1, ot_text = ''call mom'',
                ot_due_date = Some ''2024-01-15T10:00:00+00:00'', ot_priority = ''medium''\<rparr>"

definition reminder2 :: overdue_task where
  "reminder2 = \<lparr>ot_id = 2, ot_text = ''pay rent'',
                ot_due_date = Some ''2024-01-15T09:00:00+00:00'', ot_priority = ''high''\<rparr>"

section \<open>Date resolver and task creation (sms\_handler.py)\<close>

subsection \<open>The regular expressions of the resolver\<close>

text \<open>
  The twelve patterns use three constructs: literal text, the group
  \<^verbatim>\<open>(\d+)\<close> and an optional character \<^verbatim>\<open>[s]?\<close>. Text is a string of
  bytes: the model covers ASCII messages, where \<^verbatim>\<open>\d\<close> is a digit 0 to 9 and
  \<^verbatim>\<open>lower()\<close> changes the letters A to Z only.
\<close>

datatype rx = Lit string | Digits | Opt char

definition is_digit :: "char \<Rightarrow> bool" where
  "is_digit c = (CHR ''0'' \<le> c \<and> c \<le> CHR ''9'')"

definition lower_char :: "char \<Rightarrow> char" where
  "lower_char c =
     (if CHR ''A'' \<le> c \<and> c \<le> CHR ''Z'' then char_of (of_char c + (32 :: nat)) else c)"

definition lower :: "string \<Rightarrow> string" where
  "lower s = map lower_char s"

text \<open>
  The pattern as the source writes it, for the tests \<^verbatim>\<open>'tomorrow' in pattern\<close>.
\<close>

fun rx_source :: "rx \<Rightarrow> string" where
  "rx_source (Lit s) = s"
| "rx_source Digits = ''('' @ [CHR 0x5C] @ ''d+)''"
| "rx_source (Opt c) = ''['' @ [c] @ '']?''"

definition pattern_source :: "rx list \<Rightarrow> string" where
  "pattern_source p = concat (map rx_source p)"

text \<open>\<^verbatim>\<open>needle in hay\<close> on strings.\<close>

fun contains :: "string \<Rightarrow> string \<Rightarrow> bool" where
  "contains needle [] = (needle = [])"
| "contains needle (c # cs) =
     (take (length needle) (c # cs) = needle \<or> contains needle cs)"

text \<open>
  Matching at the start of a string: the rests of the string after each way of matching
  the pattern, in the order in which the backtracking matcher of Python tries them
  (\<^verbatim>\<open>\d+\<close> and \<^verbatim>\<open>?\<close> are greedy).
\<close>

fun rx_match :: "rx list \<Rightarrow> string \<Rightarrow> string list" where
  "rx_match [] s = [s]"
| "rx_match (Lit l # rs) s =
     (if take (length l) s = l then rx_match rs (drop (length l) s) else [])"
| "rx_match (Digits # rs) s =
     concat (map (\<lambda>k. rx_match rs (drop k s))
                 (rev [1 ..< Suc (length (takeWhile is_digit s))]))"
| "rx_match (Opt c # rs) s =
     (if s \<noteq> [] \<and> hd s = c then rx_match rs (tl s) else []) @ rx_match rs s"

text \<open>
  \<^verbatim>\<open>re.search(pattern, s)\<close>: the leftmost match, given as the text matched
  (\<^verbatim>\<open>match.group(0)\<close>).
\<close>

fun re_search :: "rx list \<Rightarrow> string \<Rightarrow> string option" where
  "re_search p [] = (case rx_match p [] of [] \<Rightarrow> None | r # rest \<Rightarrow> Some [])"
| "re_search p (c # cs) =
     (case rx_match p (c # cs) of
        [] \<Rightarrow> re_search p cs
      | r # rest \<Rightarrow> Some (take (length (c # cs) - length r) (c # cs)))"

text \<open>The list \<^verbatim>\<open>time_patterns\<close>, in the order of the source.\<close>

definition time_patterns :: "rx list list" where
  "time_patterns =
     [[Lit ''in '', Digits, Lit '' minute'', Opt CHR ''s''],
      [Lit ''in '', Digits, Lit '' hour'', Opt CHR ''s''],
      [Lit ''in '', Digits, Lit '' day'', Opt CHR ''s''],
      [Lit ''in '', Digits, Lit '' second'', Opt CHR ''s''],
      [Digits, Lit '' minute'', Opt CHR ''s'', Lit '' from now''],
      [Digits, Lit '' hour'', Opt CHR ''s'', Lit '' from now''],
      [Digits, Lit '' day'', Opt CHR ''s'', Lit '' from now''],
      [Digits, Lit '' second'', Opt CHR ''s'', Lit '' from now''],
      [Lit ''tomorrow''],
      [Lit ''today''],
      [Lit ''next week''],
      [Lit ''next month'']]"

subsection \<open>\_parse\_date\_nlp\<close>

text \<open>
  The handler: its time zone, the library, and \<^verbatim>\<open>dateparser.parse\<close> with the
  settings of the call (dates from the future preferred, the time of the call in the
  zone of the handler as base). The parser returns a datetime or \<open>None\<close>, or raises.
\<close>

record handler =
  tzinfo :: timezone
  stdlib :: pylib
  dateparser_parse :: "string \<Rightarrow> datetime option outcome"

text \<open>The phrase handed to the parser once a pattern has matched.\<close>

definition time_phrase :: "rx list \<Rightarrow> string \<Rightarrow> string" where
  "time_phrase pattern matched =
     (if contains ''tomorrow'' (pattern_source pattern) then ''tomorrow''
      else if contains ''today'' (pattern_source pattern) then ''today''
      else if contains ''next week'' (pattern_source pattern) then ''next week''
      else if contains ''next month'' (pattern_source pattern) then ''next month''
      else matched)"

text \<open>
  \<^verbatim>\<open>for pattern in time_patterns\<close>: the first pattern found in the lowered text
  decides, and the loop ends there (\<^verbatim>\<open>break\<close>) whatever the parser makes of the
  phrase.
\<close>

fun search_patterns :: "handler \<Rightarrow> string \<Rightarrow> rx list list \<Rightarrow> datetime option outcome" where
  "search_patterns h txt [] = Returns None"
| "search_patterns h txt (pattern # patterns) =
     (case re_search pattern (lower txt) of
        None \<Rightarrow> search_patterns h txt patterns
      | Some matched \<Rightarrow> dateparser_parse h (time_phrase pattern matched))"

text \<open>\<^verbatim>\<open>tz.localize(dt)\<close> of pytz, \<^verbatim>\<open>dt.astimezone(tz)\<close> and
  \<^verbatim>\<open>dt.replace(microsecond=0)\<close>.\<close>

definition localize :: "timezone \<Rightarrow> datetime \<Rightarrow> datetime" where
  "localize tz dt = dt\<lparr>tzoffset := Some (offset_at_wall tz (wall dt))\<rparr>"

definition astimezone :: "timezone \<Rightarrow> timezone \<Rightarrow> datetime \<Rightarrow> datetime" where
  "astimezone local tz dt =
     (let u = instant_us local dt; off = offset_at_utc tz u
      in \<lparr>wall = u + off, tzoffset = Some off\<rparr>)"

definition replace_microsecond_0 :: "datetime \<Rightarrow> datetime" where
  "replace_microsecond_0 dt = dt\<lparr>wall := wall dt - wall dt mod 1000000\<rparr>"

text \<open>The last lines of the method: from the parsed datetime to the string returned.\<close>

definition to_utc_seconds :: "handler \<Rightarrow> datetime \<Rightarrow> datetime" where
  "to_utc_seconds h parsed =
     (let parsed1 = (if tzoffset parsed = None then localize (tzinfo h) parsed else parsed);
          parsed_utc = astimezone (local_zone (stdlib h)) utc_zone parsed1
      in replace_microsecond_0 parsed_utc)"

text \<open>
  \<^verbatim>\<open>_parse_date_nlp\<close>. The whole body is inside
  \<^verbatim>\<open>try: ... except Exception: return None\<close>.
\<close>

definition parse_date_nlp :: "handler \<Rightarrow> string \<Rightarrow> string option" where
  "parse_date_nlp h txt =
     (case dateparser_parse h txt of
        Raises \<Rightarrow> None
      | Returns whole \<Rightarrow>
          (case (case whole of
                   Some dt \<Rightarrow> Returns (Some dt)
                 | None \<Rightarrow> search_patterns h txt time_patterns) of
             Raises \<Rightarrow> None
           | Returns None \<Rightarrow> None
           | Returns (Some parsed) \<Rightarrow> Some (isoformat (stdlib h) (to_utc_seconds h parsed))))"

subsection \<open>\_handle\_task\_creation\<close>

text \<open>The replies of the method, without their wording.\<close>

datatype response =
    Remind_on string string int
  | Remind string int
  | Added string int
  | Could_not_save
  | Error_creating

text \<open>
  The surroundings of one request: the handler, the fault of the connection that
  \<^verbatim>\<open>add_task\<close> opens, the clock of the database, and
  \<^verbatim>\<open>memory_manager.add_conversation\<close>.
\<close>

record creation_env =
  the_handler :: handler
  store_io :: fault
  db_clock :: string
  add_conversation :: "string \<Rightarrow> response \<Rightarrow> bool outcome"

text \<open>
  \<^verbatim>\<open>_handle_task_creation\<close>, given the text and the priority that
  \<^verbatim>\<open>task_info.get\<close> returned. The due date is always parsed from the message of
  the user; the task is added with whatever the resolver returned.
\<close>

definition confirmation :: "handler \<Rightarrow> string \<Rightarrow> string option \<Rightarrow> int \<Rightarrow> response" where
  "confirmation h txt parsed_utc_iso tid =
     (case parsed_utc_iso of
        None \<Rightarrow> Added txt tid
      | Some iso_str \<Rightarrow>
          if iso_str = [] then Added txt tid
          else (case fromisoformat (stdlib h) (replace_Z iso_str) of
                  None \<Rightarrow> Remind txt tid
                | Some dt_utc \<Rightarrow>
                    Remind_on txt
                      (strftime (stdlib h) (astimezone (local_zone (stdlib h)) (tzinfo h) dt_utc))
                      tid))"

definition handle_task_creation ::
  "creation_env \<Rightarrow> db \<Rightarrow> string \<Rightarrow> string \<Rightarrow> string \<Rightarrow> response \<times> db" where
  "handle_task_creation env d txt prio user_message =
     (let h = the_handler env;
          parsed_utc_iso = parse_date_nlp h user_message;
          added = add_task (store_io env) (stdlib h) (db_clock env) d txt parsed_utc_iso prio
      in if fst added > 0
         then let response = confirmation h txt parsed_utc_iso (fst added)
              in (case add_conversation env user_message response of
                    Raises \<Rightarrow> (Error_creating, snd added)
                  | Returns ok \<Rightarrow> (response, snd added))
         else (Could_not_save, snd added))"

section \<open>Example handler\<close>

text \<open>
  A handler in a zone six hours behind UTC. Its parser knows four phrases: it returns an
  aware datetime for two of them, a naive one with microseconds for "tomorrow"
  (23:00:00.123456 on 2024-01-16), and raises on "next week".
\<close>

definition central_zone :: timezone where
  "central_zone = \<lparr>offset_at_wall = (\<lambda>w. - 21600000000), offset_at_utc = (\<lambda>u. - 21600000000)\<rparr>"

definition example_parse :: "string \<Rightarrow> datetime option outcome" where
  "example_parse s =
     (if s = ''tomorrow at 3pm''
        then Returns (Some \<lparr>wall = 1705417200000000, tzoffset = Some (- 21600000000)\<rparr>)
      else if s = ''2 hours from now''
        then Returns (Some \<lparr>wall = 1705345200654321, tzoffset = Some (- 21600000000)\<rparr>)
      else if s = ''tomorrow''
        then Returns (Some \<lparr>wall = 1705446000123456, tzoffset = None\<rparr>)
      else if s = ''next week'' then Raises
      else if s = ''remind me on the 32nd'' then Raises
      else Returns None)"

definition example_handler :: handler where
  "example_handler =
     \<lparr>tzinfo = central_zone, stdlib = example_lib, dateparser_parse = example_parse\<rparr>"

definition example_creation :: creation_env where
  "example_creation =
     \<lparr>the_handler = example_handler, store_io = None, db_clock = ''2024-01-15 17:00:00'',
      add_conversation = (\<lambda>m r. Returns True)\<rparr>"

section \<open>The two threads that scan (scheduler.py, main.py)\<close>

text \<open>
  Scans start in two places. The thread \<^verbatim>\<open>reminder-scheduler\<close> runs
  \<^verbatim>\<open>_run_loop\<close>, where \<^verbatim>\<open>schedule.run_pending()\<close> calls
  \<^verbatim>\<open>_check_and_send_reminders\<close> every ten seconds; the thread of the web server
  calls \<^verbatim>\<open>run_reminder_scan_now\<close> for \<^verbatim>\<open>POST /debug/run-reminders\<close>. Each
  thread runs its function to the end before it starts it again. Neither function takes
  a lock, and both work on the same database file and the same message sender.
\<close>

datatype thread = Scheduler | Request

text \<open>The local variables of a pass in progress: the overdue tasks fetched and not yet
  visited, \<^verbatim>\<open>sent_count\<close> and \<^verbatim>\<open>seen\<close>.\<close>

record pass =
  remaining :: "overdue_task list"
  pass_sent_count :: nat
  pass_seen :: "int set"

text \<open>The database and the reminders sent, shared by the threads, and the pass each
  thread is in, if any.\<close>

record system =
  shared_db :: db
  outbox :: "overdue_task list"
  scheduler_pass :: "pass option"
  request_pass :: "pass option"

fun pass_of :: "thread \<Rightarrow> system \<Rightarrow> pass option" where
  "pass_of Scheduler s = scheduler_pass s"
| "pass_of Request s = request_pass s"

fun set_pass :: "thread \<Rightarrow> pass option \<Rightarrow> system \<Rightarrow> system" where
  "set_pass Scheduler p s = s\<lparr>scheduler_pass := p\<rparr>"
| "set_pass Request p s = s\<lparr>request_pass := p\<rparr>"

text \<open>
  One step of a thread. An idle thread enters its scan function: it checks the sender,
  fetches the overdue tasks and, if there are any, is in a pass. A thread in a pass
  runs the body of the loop for the next task, or returns when none is left. The steps
  of the two threads interleave in any order; a step is one iteration of the loop, so
  every interleaving of the model is one the two threads can take.
\<close>

definition thread_step :: "scan_env \<Rightarrow> thread \<Rightarrow> system \<Rightarrow> system" where
  "thread_step env th s =
     (case pass_of th s of
        None \<Rightarrow>
          if \<not> is_configured env then s
          else
            let due_tasks = get_overdue_tasks (query_io env) (now_ts env) (shared_db s)
            in if due_tasks = [] then s
               else set_pass th
                      (Some \<lparr>remaining = due_tasks, pass_sent_count = 0, pass_seen = {}\<rparr>) s
      | Some p \<Rightarrow>
          (case remaining p of
             [] \<Rightarrow> set_pass th None s
           | task # rest \<Rightarrow>
               let st = process_task env task
                          \<lparr>sent_count = pass_sent_count p, seen = pass_seen p,
                           store = shared_db s, calls = outbox s\<rparr>
               in set_pass th
                    (Some \<lparr>remaining = rest, pass_sent_count = sent_count st,
                           pass_seen = seen st\<rparr>)
                    (s\<lparr>shared_db := store st, outbox := calls st\<rparr>)))"

fun run :: "scan_env \<Rightarrow> thread list \<Rightarrow> system \<Rightarrow> system" where
  "run env [] s = s"
| "run env (th # ths) s = run env ths (thread_step env th s)"




section \<open>Properties of the task store\<close>

lemma update_complete_no_match:
  "filter (complete_matches tid) (update_complete now tid ts) = []"
  by (induction ts) (auto simp: update_complete_def complete_matches_def)

lemma rowcount_complete_pos:
  "(rowcount_complete tid ts > 0) = (\<exists>t \<in> set ts. task_id t = tid \<and> completed t = 0)"
  by (auto simp: rowcount_complete_def complete_matches_def filter_empty_conv)

text \<open>
  Once the id is bound, \<^verbatim>\<open>complete_task\<close> returns True exactly when the
  statements run and some row has the given id and \<^verbatim>\<open>completed = 0\<close>. After a
  call that returned True, a second call on the same id returns False and leaves the
  store as the first call left it; on an id that no row has, the call returns False and
  changes nothing.
\<close>

theorem complete_task_conditional:
  "(fst (complete_task io now d tid)
      = (io = None \<and> (\<exists>t \<in> set (rows d). task_id t = tid \<and> completed t = 0)))
   \<and> (fst (complete_task None now d tid) \<longrightarrow>
        complete_task io' now' (snd (complete_task None now d tid)) tid
          = (False, snd (complete_task None now d tid)))
   \<and> (tid \<notin> task_id ` set (rows d) \<longrightarrow> complete_task io now d tid = (False, d))"
proof (intro conjI impI)
  show "fst (complete_task io now d tid)
     = (io = None \<and> (\<exists>t \<in> set (rows d). task_id t = tid \<and> completed t = 0))"
    by (cases io) (simp_all add: complete_task_def rowcount_complete_pos)
next
  assume "fst (complete_task None now d tid)"
  then have "snd (complete_task None now d tid)
      = d\<lparr>rows := update_complete now tid (rows d)\<rparr>"
    by (simp add: complete_task_def split: if_splits)
  moreover have "rowcount_complete tid (update_complete now tid (rows d)) = 0"
    by (simp add: rowcount_complete_def update_complete_no_match)
  ultimately show "complete_task io' now' (snd (complete_task None now d tid)) tid
       = (False, snd (complete_task None now d tid))"
    by (cases io') (simp_all add: complete_task_def)
next
  assume "tid \<notin> task_id ` set (rows d)"
  then have "rowcount_complete tid (rows d) = 0"
    by (auto simp: rowcount_complete_def complete_matches_def filter_empty_conv)
  then show "complete_task io now d tid = (False, d)"
    by (cases io) (simp_all add: complete_task_def)
qed

theorem complete_task_conditional_witness:
  "(let d = \<lparr>rows = [\<lparr>task_id = 1, task_text = ''call mom'', due_date = None, due_ts = None,
                         completed = 0, priority = ''medium'',
                         created_at = ''2024-01-15 10:00:00'', completed_at = None\<rparr>],
              seq = 1\<rparr>;
        r1 = complete_task None ''2024-01-15 10:05:00'' d 1;
        r2 = complete_task None ''2024-01-15 10:06:00'' (snd r1) 1
    in fst r1 \<and> r2 = (False, snd r1) \<and> 2 \<notin> task_id ` set (rows d)
       \<and> complete_task None ''2024-01-15 10:05:00'' d 2 = (False, d))"
  using complete_task_conditional
    [of None "''2024-01-15 10:05:00''"
        "\<lparr>rows = [\<lparr>task_id = 1, task_text = ''call mom'', due_date = None, due_ts = None,
                         completed = 0, priority = ''medium'',
                         created_at = ''2024-01-15 10:00:00'', completed_at = None\<rparr>],
              seq = 1\<rparr>" 1 None "''2024-01-15 10:06:00''"]
    complete_task_conditional
    [of None "''2024-01-15 10:05:00''"
        "\<lparr>rows = [\<lparr>task_id = 1, task_text = ''call mom'', due_date = None, due_ts = None,
                         completed = 0, priority = ''medium'',
                         created_at = ''2024-01-15 10:00:00'', completed_at = None\<rparr>],
              seq = 1\<rparr>" 2]
  by (simp add: Let_def)

text \<open>
  The store after the update: the rows with the id and \<^verbatim>\<open>completed = 0\<close> are set
  to completed with the time of the call, every other row and the key counter are as
  before.
\<close>

lemma complete_task_store:
  "snd (complete_task None now d tid)
     = d\<lparr>rows := map (\<lambda>t. if task_id t = tid \<and> completed t = 0
                          then t\<lparr>completed := 1, completed_at := Some now\<rparr> else t)
                     (rows d)\<rparr>"
proof (cases "rowcount_complete tid (rows d) > 0")
  case True
  then show ?thesis
    by (simp add: complete_task_def update_complete_def complete_matches_def)
next
  case False
  then have "\<forall>t \<in> set (rows d). \<not> (task_id t = tid \<and> completed t = 0)"
    by (simp add: rowcount_complete_pos)
  then have "map (\<lambda>t. if task_id t = tid \<and> completed t = 0
                       then t\<lparr>completed := 1, completed_at := Some now\<rparr> else t) (rows d)
             = rows d"
    by (intro map_idI) auto
  with False show ?thesis
    by (simp add: complete_task_def)
qed

lemma call_complete_task_bindable:
  "bindable tid \<Longrightarrow> call_complete_task io now d tid = Returns (complete_task io now d tid)"
  by (cases io) (simp_all add: call_complete_task_def)

text \<open>
  Claim C1, at an id that SQLite cannot bind. No row of the example store has the id
  9223372036854775808, and the call \<^verbatim>\<open>complete_task(9223372036854775808)\<close> raises
  where the claim has it return False; with 9223372036854775807, the largest id that
  binds, the call returns False and leaves the store as it is.
\<close>

theorem complete_task_unbindable_id_raises:
  "9223372036854775808 \<notin> task_id ` set (rows example_db)
   \<and> call_complete_task None ''2024-01-15 10:20:00'' example_db 9223372036854775808 = Raises
   \<and> call_complete_task None ''2024-01-15 10:20:00'' example_db 9223372036854775807
        = Returns (False, example_db)"
  by (simp add: call_complete_task_def bindable_def complete_task_def rowcount_complete_def
      complete_matches_def example_db_def mk_task_def)

lemma sorted_some_keys:
  "sorted (map f xs) \<Longrightarrow> \<forall>t \<in> set xs. f t \<noteq> None \<Longrightarrow>
     sorted_wrt (\<lambda>a b. \<exists>x y. f a = Some x \<and> f b = Some y \<and> x \<le> y) xs"
  for f :: "'a \<Rightarrow> int option"
proof (induction xs)
  case Nil
  then show ?case by simp
next
  case (Cons a xs)
  from Cons.prems obtain x where x: "f a = Some x" by auto
  have "\<exists>y. f b = Some y \<and> x \<le> y" if "b \<in> set xs" for b
  proof -
    from that Cons.prems(2) obtain y where y: "f b = Some y" by auto
    from that Cons.prems(1) have "f a \<le> f b" by simp
    with x y show ?thesis by simp
  qed
  with Cons x show ?case by simp
qed

lemma is_overdue_iff:
  "is_overdue now t = (completed t = 0 \<and> (\<exists>ts. due_ts t = Some ts \<and> ts < now))"
  by (simp add: is_overdue_def split: option.splits)

lemma select_overdue_mset:
  "mset (select_overdue now ts) = filter_mset (is_overdue now) (mset ts)"
  by (simp add: select_overdue_def)

lemma select_overdue_set:
  "set (select_overdue now ts) = {t \<in> set ts. is_overdue now t}"
  by (simp add: select_overdue_def)

lemma select_overdue_sorted:
  "sorted_wrt (\<lambda>a b. \<exists>x y. due_ts a = Some x \<and> due_ts b = Some y \<and> x \<le> y)
     (select_overdue now ts)"
proof (rule sorted_some_keys)
  show "sorted (map due_ts (select_overdue now ts))"
    by (simp add: select_overdue_def)
  show "\<forall>t \<in> set (select_overdue now ts). due_ts t \<noteq> None"
    by (auto simp: select_overdue_set is_overdue_iff)
qed

lemma select_overdue_distinct_ids:
  assumes "distinct (map task_id ts)"
  shows "distinct (map task_id (select_overdue now ts))"
proof -
  have "mset (map task_id (select_overdue now ts))
          = image_mset task_id (filter_mset (is_overdue now) (mset ts))"
    by (simp add: select_overdue_mset)
  also have "\<dots> = mset (map task_id (filter (is_overdue now) ts))"
    by simp
  finally have "distinct (map task_id (select_overdue now ts))
                  = distinct (map task_id (filter (is_overdue now) ts))"
    by (rule mset_eq_imp_distinct_iff)
  with assms show ?thesis by (simp add: distinct_map_filter)
qed

text \<open>
  The query for a given bound. When the statement runs, \<^verbatim>\<open>get_overdue_tasks\<close> returns the
  dictionaries of the rows that \<^verbatim>\<open>select_overdue\<close> selects, and these are the rows
  with \<^verbatim>\<open>completed = 0\<close> and a non-null \<^verbatim>\<open>due_ts\<close> strictly below the
  bound, each as often as the table holds it, in ascending order of \<^verbatim>\<open>due_ts\<close>.
  A row with a null \<^verbatim>\<open>due_ts\<close> or with \<^verbatim>\<open>due_ts\<close> at or above the bound is
  not among them, and where the ids of the table are distinct so are the ids returned.
\<close>

theorem get_overdue_tasks_exact:
  "get_overdue_tasks None now d = map overdue_of (select_overdue now (rows d))
   \<and> mset (select_overdue now (rows d))
       = {# t \<in># mset (rows d). completed t = 0 \<and> (\<exists>ts. due_ts t = Some ts \<and> ts < now) #}
   \<and> sorted_wrt (\<lambda>a b. \<exists>x y. due_ts a = Some x \<and> due_ts b = Some y \<and> x \<le> y)
        (select_overdue now (rows d))
   \<and> (\<forall>t::task. (due_ts t = None \<or> (\<exists>ts. due_ts t = Some ts \<and> now \<le> ts))
          \<longrightarrow> t \<notin> set (select_overdue now (rows d)))
   \<and> (distinct (map task_id (rows d))
          \<longrightarrow> distinct (map ot_id (get_overdue_tasks None now d)))"
proof (intro conjI allI impI)
  show "get_overdue_tasks None now d = map overdue_of (select_overdue now (rows d))"
    by (simp add: get_overdue_tasks_def)
  show "mset (select_overdue now (rows d))
       = {# t \<in># mset (rows d). completed t = 0 \<and> (\<exists>ts. due_ts t = Some ts \<and> ts < now) #}"
    by (simp add: select_overdue_mset is_overdue_iff [abs_def])
  show "sorted_wrt (\<lambda>a b. \<exists>x y. due_ts a = Some x \<and> due_ts b = Some y \<and> x \<le> y)
        (select_overdue now (rows d))"
    by (rule select_overdue_sorted)
next
  fix t :: task
  assume "due_ts t = None \<or> (\<exists>ts. due_ts t = Some ts \<and> now \<le> ts)"
  then have "\<not> is_overdue now t"
    by (auto simp: is_overdue_iff)
  then show "t \<notin> set (select_overdue now (rows d))"
    by (simp add: select_overdue_set)
next
  assume "distinct (map task_id (rows d))"
  then have "distinct (map task_id (select_overdue now (rows d)))"
    by (rule select_overdue_distinct_ids)
  moreover have "map ot_id (get_overdue_tasks None now d)
                   = map task_id (select_overdue now (rows d))"
    by (simp add: get_overdue_tasks_def overdue_of_def)
  ultimately show "distinct (map ot_id (get_overdue_tasks None now d))"
    by simp
qed

theorem get_overdue_tasks_exact_witness:
  "distinct (map task_id (rows example_db))
   \<and> map ot_id (get_overdue_tasks None 1705314000 example_db) = [2, 1]
   \<and> distinct (map ot_id (get_overdue_tasks None 1705314000 example_db))
   \<and> due_ts (mk_task 4 ''buy milk'' None None 0 ''medium'' ''2024-01-15 08:03:00'') = None
   \<and> mk_task 4 ''buy milk'' None None 0 ''medium'' ''2024-01-15 08:03:00''
         \<notin> set (select_overdue 1705314000 (rows example_db))"
  using get_overdue_tasks_exact [of 1705314000 example_db]
  by (simp add: example_db_def mk_task_def get_overdue_tasks_def select_overdue_def
      is_overdue_def overdue_of_def)

text \<open>
  Claim C2, on a machine whose zone is not UTC. At 10:20 UTC on 2024-01-15 (1705314000)
  on a machine six hours behind UTC, the bound that the method computes is 1705335600,
  six hours ahead, and the call returns task 6, which is due at 12:00 UTC and so not
  yet overdue. On a machine on UTC the same call returns tasks 2 and 1 only.
\<close>

theorem get_overdue_tasks_ahead_of_clock:
  "utcnow_timestamp central_zone 1705314000000000 = 1705335600
   \<and> map ot_id (call_get_overdue_tasks None central_zone 1705314000000000 later_db)
        = [2, 1, 6]
   \<and> map due_ts (filter (\<lambda>t. task_id t = 6) (rows later_db)) = [Some 1705320000]
   \<and> (1705314000 :: int) < 1705320000
   \<and> utcnow_timestamp utc_zone 1705314000000000 = 1705314000
   \<and> map ot_id (call_get_overdue_tasks None utc_zone 1705314000000000 later_db) = [2, 1]"
proof -
  have b1: "utcnow_timestamp central_zone 1705314000000000 = 1705335600"
    by (simp add: utcnow_timestamp_def utcnow_def int_timestamp_def instant_us_def
        central_zone_def)
  have b2: "utcnow_timestamp utc_zone 1705314000000000 = 1705314000"
    by (simp add: utcnow_timestamp_def utcnow_def int_timestamp_def instant_us_def
        utc_zone_def)
  have r1: "map ot_id (get_overdue_tasks None 1705335600 later_db) = [2, 1, 6]"
    by (simp add: later_db_def example_db_def mk_task_def get_overdue_tasks_def
        select_overdue_def is_overdue_def overdue_of_def)
  have r2: "map ot_id (get_overdue_tasks None 1705314000 later_db) = [2, 1]"
    by (simp add: later_db_def example_db_def mk_task_def get_overdue_tasks_def
        select_overdue_def is_overdue_def overdue_of_def)
  have d6: "map due_ts (filter (\<lambda>t. task_id t = 6) (rows later_db)) = [Some 1705320000]"
    by (simp add: later_db_def example_db_def mk_task_def)
  from b1 b2 r1 r2 d6 show ?thesis
    by (simp add: call_get_overdue_tasks_def)
qed

text \<open>
  Claim C8, as the code has it. When the connection raises, \<^verbatim>\<open>get_task\<close> returns
  \<open>None\<close> and \<^verbatim>\<open>complete_task\<close> returns False with the store unchanged,
  whatever the error and whatever the store holds: the very results that a store
  without the task gives when the statements run.
\<close>

theorem storage_error_same_as_not_found:
  "get_task (Some e) d tid = None
   \<and> get_task (Some e) d tid = get_task None (d\<lparr>rows := []\<rparr>) tid
   \<and> complete_task (Some e) now d tid = (False, d)
   \<and> fst (complete_task (Some e) now d tid)
        = fst (complete_task None now (d\<lparr>rows := []\<rparr>) tid)"
  by (simp add: get_task_def complete_task_def rowcount_complete_def)

text \<open>
  Counterexample to claim C8 as stated: on the example store, a read of task 1 that hits
  a storage error and a read of task 99, which does not exist, return the same value,
  and so do the two calls of \<^verbatim>\<open>complete_task\<close>.
\<close>

theorem storage_error_indistinguishable:
  "get_task (Some OperationalError) example_db 1 = get_task None example_db 99
   \<and> fst (complete_task (Some OperationalError) ''2024-01-15 10:20:00'' example_db 1)
        = fst (complete_task None ''2024-01-15 10:20:00'' example_db 99)
   \<and> snd (complete_task (Some OperationalError) ''2024-01-15 10:20:00'' example_db 1)
        = snd (complete_task None ''2024-01-15 10:20:00'' example_db 99)
   \<and> get_task None example_db 1 \<noteq> None"
  by (simp add: get_task_def complete_task_def rowcount_complete_def complete_matches_def
      example_db_def mk_task_def)

lemma select_pending_sorted:
  "sorted_wrt (\<lambda>a b. pending_key a \<le> pending_key b) (select_pending ts)"
proof -
  have "sorted (map pending_key (select_pending ts))"
    by (simp add: select_pending_def)
  then show ?thesis
    by (simp add: sorted_map)
qed

lemma pending_key_le:
  "pending_key a \<le> pending_key b \<Longrightarrow>
     priority_rank (priority a) < priority_rank (priority b)
     \<or> (priority_rank (priority a) = priority_rank (priority b)
        \<and> (due_date a < due_date b
           \<or> (due_date a = due_date b \<and> created_at a \<le> created_at b)))"
  by (auto simp: pending_key_def less_eq_prod_def)

text \<open>
  Claim C9, as the code has it. When the statement runs, \<^verbatim>\<open>get_pending_tasks\<close>
  returns the dictionaries of exactly the rows with \<^verbatim>\<open>completed = 0\<close>, ordered by
  the rank of the priority (high, medium, low; any other priority has rank NULL and
  comes first), then by the due-date string ascending with a null due date first, then
  by \<^verbatim>\<open>created_at\<close> ascending.
\<close>

theorem get_pending_tasks_order:
  "get_pending_tasks None d = map pending_of (select_pending (rows d))
   \<and> mset (select_pending (rows d)) = {# t \<in># mset (rows d). completed t = 0 #}
   \<and> sorted_wrt
        (\<lambda>a b. priority_rank (priority a) < priority_rank (priority b)
              \<or> (priority_rank (priority a) = priority_rank (priority b)
                 \<and> (due_date a < due_date b
                    \<or> (due_date a = due_date b \<and> created_at a \<le> created_at b))))
        (select_pending (rows d))
   \<and> priority_rank ''high'' < priority_rank ''medium''
   \<and> priority_rank ''medium'' < priority_rank ''low''
   \<and> (p \<noteq> ''high'' \<and> p \<noteq> ''medium'' \<and> p \<noteq> ''low''
        \<longrightarrow> priority_rank p < priority_rank ''high'')
   \<and> (None :: string option) < Some s"
proof (intro conjI impI)
  show "get_pending_tasks None d = map pending_of (select_pending (rows d))"
    by (simp add: get_pending_tasks_def)
  show "mset (select_pending (rows d)) = {# t \<in># mset (rows d). completed t = 0 #}"
    by (simp add: select_pending_def)
  show "sorted_wrt
        (\<lambda>a b. priority_rank (priority a) < priority_rank (priority b)
              \<or> (priority_rank (priority a) = priority_rank (priority b)
                 \<and> (due_date a < due_date b
                    \<or> (due_date a = due_date b \<and> created_at a \<le> created_at b))))
        (select_pending (rows d))"
    by (rule sorted_wrt_mono_rel [OF _ select_pending_sorted]) (rule pending_key_le)
  show "priority_rank ''high'' < priority_rank ''medium''"
    by (simp add: priority_rank_def)
  show "priority_rank ''medium'' < priority_rank ''low''"
    by (simp add: priority_rank_def)
  show "priority_rank p < priority_rank ''high''"
    if "p \<noteq> ''high'' \<and> p \<noteq> ''medium'' \<and> p \<noteq> ''low''"
    using that by (simp add: priority_rank_def)
  show "(None :: string option) < Some s"
    by simp
qed

theorem get_pending_tasks_order_witness:
  "map pt_id (get_pending_tasks None example_db) = [2, 4, 1, 3]
   \<and> ''urgent'' \<noteq> ''high'' \<and> ''urgent'' \<noteq> ''medium'' \<and> ''urgent'' \<noteq> ''low''
   \<and> priority_rank ''urgent'' < priority_rank ''high''"
  using get_pending_tasks_order [of example_db "''urgent''"]
  by (simp add: example_db_def mk_task_def select_pending_def pending_key_def
      priority_rank_def pending_of_def less_eq_prod_def)

text \<open>
  Counterexample to claim C9 as stated: on the example store the listing puts task 4,
  which has no due date, before task 1, which has the same priority and a due date.
\<close>

theorem get_pending_tasks_nulls_first:
  "map pt_id (get_pending_tasks None example_db) = [2, 4, 1, 3]
   \<and> \<not> spec_nulls_last (get_pending_tasks None example_db)"
  by (simp add: get_pending_tasks_def example_db_def mk_task_def select_pending_def
      pending_key_def priority_rank_def pending_of_def less_eq_prod_def spec_nulls_last_def)

lemma fold_max_ge: "a \<le> fold max xs a" for a :: int
  by (induction xs arbitrary: a) (auto intro: order_trans [OF max.cobounded2])









section \<open>Properties of the scan pass\<close>

lemma complete_task_other_rows:
  "j \<noteq> i \<Longrightarrow>
     filter (\<lambda>t. task_id t = j) (rows (snd (complete_task io now d i)))
       = filter (\<lambda>t. task_id t = j) (rows d)"
proof -
  assume ji: "j \<noteq> i"
  have "filter (\<lambda>t. task_id t = j) (update_complete now i ts) = filter (\<lambda>t. task_id t = j) ts"
    for ts
    using ji by (induction ts) (auto simp: update_complete_def complete_matches_def)
  then show ?thesis
    by (cases io) (simp_all add: complete_task_def)
qed

lemma complete_task_fault: "snd (complete_task (Some e) now d i) = d"
  by (simp add: complete_task_def)

lemma update_complete_done:
  assumes "t \<in> set (update_complete now i ts)" and "task_id t = i"
  shows "completed t \<noteq> 0"
proof -
  from assms(1) obtain t0 where t0: "t0 \<in> set ts"
    and t: "t = (if complete_matches i t0
                 then t0\<lparr>completed := 1, completed_at := Some now\<rparr> else t0)"
    unfolding update_complete_def by auto
  show ?thesis
  proof (cases "complete_matches i t0")
    case True
    with t show ?thesis by simp
  next
    case False
    with t have "t = t0" by simp
    with False assms(2) show ?thesis by (simp add: complete_matches_def)
  qed
qed

lemma complete_task_done:
  assumes "t \<in> set (rows (snd (complete_task None now d i)))" and "task_id t = i"
  shows "completed t \<noteq> 0"
proof (cases "rowcount_complete i (rows d) > 0")
  case True
  with assms(1) have "t \<in> set (update_complete now i (rows d))"
    by (simp add: complete_task_def)
  then show ?thesis using assms(2) by (rule update_complete_done)
next
  case False
  with assms(1) have "t \<in> set (rows d)"
    by (simp add: complete_task_def)
  with False assms(2) show ?thesis
    using rowcount_complete_pos [of i "rows d"] by auto
qed

lemma process_task_seen:
  "seen (process_task env task st) = insert (ot_id task) (seen st)"
  by (auto simp: process_task_def Let_def split: outcome.splits bool.splits)

lemma process_task_rows_other:
  "ot_id task \<noteq> i \<or> i \<in> seen st \<Longrightarrow>
     filter (\<lambda>t. task_id t = i) (rows (store (process_task env task st)))
       = filter (\<lambda>t. task_id t = i) (rows (store st))"
proof -
  assume "ot_id task \<noteq> i \<or> i \<in> seen st"
  then consider "ot_id task \<in> seen st" | "ot_id task \<notin> seen st" "i \<noteq> ot_id task"
    by auto
  then show ?thesis
  proof cases
    case 1
    then show ?thesis by (simp add: process_task_def)
  next
    case 2
    then show ?thesis
      by (auto simp: process_task_def Let_def complete_task_other_rows
          split: outcome.splits bool.splits)
  qed
qed

lemma process_task_calls_other:
  "ot_id task \<noteq> i \<or> i \<in> seen st \<Longrightarrow>
     filter (\<lambda>c. ot_id c = i) (calls (process_task env task st))
       = filter (\<lambda>c. ot_id c = i) (calls st)"
  by (auto simp: process_task_def Let_def split: outcome.splits bool.splits)

lemma send_loop_seen_rows:
  "i \<in> seen st \<Longrightarrow>
     filter (\<lambda>t. task_id t = i) (rows (store (send_loop env due st)))
       = filter (\<lambda>t. task_id t = i) (rows (store st))"
proof (induction due arbitrary: st)
  case Nil
  then show ?case by simp
next
  case (Cons task due)
  from Cons.prems have "i \<in> seen (process_task env task st)"
    by (simp add: process_task_seen)
  then have "filter (\<lambda>t. task_id t = i) (rows (store (send_loop env due (process_task env task st))))
      = filter (\<lambda>t. task_id t = i) (rows (store (process_task env task st)))"
    by (rule Cons.IH)
  with Cons.prems show ?case
    by (simp add: process_task_rows_other)
qed

lemma send_loop_seen_calls:
  "i \<in> seen st \<Longrightarrow>
     filter (\<lambda>c. ot_id c = i) (calls (send_loop env due st))
       = filter (\<lambda>c. ot_id c = i) (calls st)"
proof (induction due arbitrary: st)
  case Nil
  then show ?case by simp
next
  case (Cons task due)
  from Cons.prems have "i \<in> seen (process_task env task st)"
    by (simp add: process_task_seen)
  then have "filter (\<lambda>c. ot_id c = i) (calls (send_loop env due (process_task env task st)))
      = filter (\<lambda>c. ot_id c = i) (calls (process_task env task st))"
    by (rule Cons.IH)
  with Cons.prems show ?case
    by (simp add: process_task_calls_other)
qed

text \<open>What the body of the loop does to a task whose id it has not seen.\<close>

lemma process_task_fresh:
  assumes "ot_id task \<notin> seen st"
  shows "filter (\<lambda>c. ot_id c = ot_id task) (calls (process_task env task st))
           = filter (\<lambda>c. ot_id c = ot_id task) (calls st) @ [task]"
    and "send_reminder env task = Returns True \<Longrightarrow> complete_io env (ot_id task) = None \<Longrightarrow>
           \<forall>t \<in> set (rows (store (process_task env task st))).
              task_id t = ot_id task \<longrightarrow> completed t \<noteq> 0"
    and "send_reminder env task \<noteq> Returns True \<or> complete_io env (ot_id task) \<noteq> None \<Longrightarrow>
           store (process_task env task st) = store st"
proof -
  show "filter (\<lambda>c. ot_id c = ot_id task) (calls (process_task env task st))
           = filter (\<lambda>c. ot_id c = ot_id task) (calls st) @ [task]"
    using assms by (auto simp: process_task_def Let_def split: outcome.splits bool.splits)
next
  assume "send_reminder env task = Returns True" "complete_io env (ot_id task) = None"
  then show "\<forall>t \<in> set (rows (store (process_task env task st))).
              task_id t = ot_id task \<longrightarrow> completed t \<noteq> 0"
    using assms by (auto simp: process_task_def Let_def dest: complete_task_done)
next
  assume "send_reminder env task \<noteq> Returns True \<or> complete_io env (ot_id task) \<noteq> None"
  then show "store (process_task env task st) = store st"
    using assms
    by (auto simp: process_task_def Let_def complete_task_fault
        split: outcome.splits bool.splits)
qed

text \<open>
  The loop, for an id it has not seen and the first task of the list with that id: the
  task is handed to \<open>send_reminder\<close> once, whatever became of the tasks before and
  after it. Its rows end up completed when the reminder was sent and the update ran, and
  are what they were in every other case.
\<close>

lemma send_loop_first:
  "i \<notin> seen st \<Longrightarrow> find (\<lambda>t. ot_id t = i) due = Some task \<Longrightarrow>
     filter (\<lambda>c. ot_id c = i) (calls (send_loop env due st))
       = filter (\<lambda>c. ot_id c = i) (calls st) @ [task]
     \<and> (send_reminder env task = Returns True \<and> complete_io env i = None \<longrightarrow>
          (\<forall>t \<in> set (rows (store (send_loop env due st))). task_id t = i \<longrightarrow> completed t \<noteq> 0))
     \<and> (send_reminder env task \<noteq> Returns True \<or> complete_io env i \<noteq> None \<longrightarrow>
          filter (\<lambda>t. task_id t = i) (rows (store (send_loop env due st)))
            = filter (\<lambda>t. task_id t = i) (rows (store st)))"
proof (induction due arbitrary: st)
  case Nil
  then show ?case by simp
next
  case (Cons x due)
  let ?st = "process_task env x st"
  show ?case
  proof (cases "ot_id x = i")
    case True
    with Cons.prems have x: "x = task" and fresh: "ot_id task \<notin> seen st" by simp_all
    from True have "i \<in> seen ?st" by (simp add: process_task_seen)
    then have calls_eq: "filter (\<lambda>c. ot_id c = i) (calls (send_loop env due ?st))
                   = filter (\<lambda>c. ot_id c = i) (calls ?st)"
      and rows_eq: "filter (\<lambda>t. task_id t = i) (rows (store (send_loop env due ?st)))
                   = filter (\<lambda>t. task_id t = i) (rows (store ?st))"
      by (rule send_loop_seen_calls, rule send_loop_seen_rows)
    have c1: "filter (\<lambda>c. ot_id c = i) (calls (send_loop env (x # due) st))
       = filter (\<lambda>c. ot_id c = i) (calls st) @ [task]"
      using calls_eq process_task_fresh(1) [OF fresh, of env] x True by simp
    have c2: "\<forall>t \<in> set (rows (store (send_loop env (x # due) st))).
                 task_id t = i \<longrightarrow> completed t \<noteq> 0"
      if "send_reminder env task = Returns True \<and> complete_io env i = None"
    proof (intro ballI impI)
      fix t
      assume "t \<in> set (rows (store (send_loop env (x # due) st)))" and ti: "task_id t = i"
      then have "t \<in> set (filter (\<lambda>t. task_id t = i) (rows (store (send_loop env due ?st))))"
        by simp
      with rows_eq have "t \<in> set (rows (store ?st))" by simp
      with process_task_fresh(2) [OF fresh, of env] that x True ti
      show "completed t \<noteq> 0" by simp
    qed
    have c3: "filter (\<lambda>t. task_id t = i) (rows (store (send_loop env (x # due) st)))
            = filter (\<lambda>t. task_id t = i) (rows (store st))"
      if "send_reminder env task \<noteq> Returns True \<or> complete_io env i \<noteq> None"
      using rows_eq process_task_fresh(3) [OF fresh, of env] that x True by simp
    from c1 c2 c3 show ?thesis by blast
  next
    case False
    with Cons.prems have "i \<notin> seen ?st" "find (\<lambda>t. ot_id t = i) due = Some task"
      by (auto simp: process_task_seen)
    from Cons.IH [OF this] False show ?thesis
      by (simp add: process_task_calls_other process_task_rows_other)
  qed
qed
lemma overdue_task_pending:
  "task \<in> set (get_overdue_tasks io now d) \<Longrightarrow>
     \<exists>t \<in> set (rows d). task_id t = ot_id task \<and> completed t = 0"
  by (cases io)
     (auto simp: get_overdue_tasks_def select_overdue_set is_overdue_iff overdue_of_def)

lemma find_Some_mem: "find P xs = Some x \<Longrightarrow> x \<in> set xs \<and> P x"
  by (induction xs) (auto split: if_splits)

text \<open>
  Claim C3. In a pass of either entry point with a configured sender, take an id among
  the overdue tasks fetched and the first fetched task that has it. That task is handed
  to \<open>send_reminder\<close> exactly once and no other task with the id is, whatever the
  outcome for the tasks before it. When the reminder is sent and the update of
  \<^verbatim>\<open>complete_task\<close> runs, every row with the id ends up completed. When
  \<open>send_reminder\<close> returns False or raises, or the update hits a storage error, the
  rows with the id are what they were before the pass, so the task is still pending.
\<close>

theorem scan_pass_per_task:
  assumes "is_configured env"
      and "find (\<lambda>t. ot_id t = i) (get_overdue_tasks (query_io env) (now_ts env) d) = Some task"
  shows "check_and_send_reminders env d = snd (run_reminder_scan_now env d)
       \<and> filter (\<lambda>c. ot_id c = i) (snd (snd (run_reminder_scan_now env d))) = [task]
       \<and> (send_reminder env task = Returns True \<and> complete_io env i = None \<longrightarrow>
            (\<forall>t \<in> set (rows (fst (snd (run_reminder_scan_now env d)))).
                task_id t = i \<longrightarrow> completed t \<noteq> 0))
       \<and> (send_reminder env task \<noteq> Returns True \<or> complete_io env i \<noteq> None \<longrightarrow>
            filter (\<lambda>t. task_id t = i) (rows (fst (snd (run_reminder_scan_now env d))))
              = filter (\<lambda>t. task_id t = i) (rows d)
            \<and> (\<exists>t \<in> set (rows (fst (snd (run_reminder_scan_now env d)))).
                  task_id t = i \<and> completed t = 0))"
proof -
  let ?due = "get_overdue_tasks (query_io env) (now_ts env) d"
  let ?st = "send_loop env ?due (start_state d)"
  from assms(2) have mem: "task \<in> set ?due" and id: "ot_id task = i"
    using find_Some_mem [of "\<lambda>t. ot_id t = i" ?due task] by simp_all
  then have "?due \<noteq> []" by auto
  with assms(1) have pass: "scan_pass env d = ?st"
    by (simp add: scan_pass_def Let_def)
  have run: "run_reminder_scan_now env d = (sent_count ?st, store ?st, calls ?st)"
    and chk: "check_and_send_reminders env d = (store ?st, calls ?st)"
    by (simp_all add: run_reminder_scan_now_def check_and_send_reminders_def pass Let_def)
  have fresh: "i \<notin> seen (start_state d)"
    by (simp add: start_state_def)
  note first = send_loop_first [OF fresh assms(2), of env]
  have c1: "filter (\<lambda>c. ot_id c = i) (calls ?st) = [task]"
    using first by (simp add: start_state_def)
  have c2: "\<forall>t \<in> set (rows (store ?st)). task_id t = i \<longrightarrow> completed t \<noteq> 0"
    if "send_reminder env task = Returns True \<and> complete_io env i = None"
    using first that by blast
  have c3: "filter (\<lambda>t. task_id t = i) (rows (store ?st)) = filter (\<lambda>t. task_id t = i) (rows d)"
    if "send_reminder env task \<noteq> Returns True \<or> complete_io env i \<noteq> None"
    using first that by (simp add: start_state_def)
  have c4: "\<exists>t \<in> set (rows (store ?st)). task_id t = i \<and> completed t = 0"
    if "send_reminder env task \<noteq> Returns True \<or> complete_io env i \<noteq> None"
  proof -
    from overdue_task_pending [OF mem] id obtain t
      where t: "t \<in> set (rows d)" "task_id t = i" "completed t = 0" by auto
    then have "t \<in> set (filter (\<lambda>t. task_id t = i) (rows d))" by simp
    with c3 [OF that] have "t \<in> set (filter (\<lambda>t. task_id t = i) (rows (store ?st)))"
      by simp
    with t show ?thesis by auto
  qed
  from c1 c2 c3 c4 show ?thesis
    unfolding run chk by simp
qed

theorem scan_pass_per_task_witness:
  "is_configured failing_env
   \<and> map ot_id (get_overdue_tasks (query_io failing_env) (now_ts failing_env) example_db) = [2, 1]
   \<and> send_reminder failing_env reminder2 = Raises
   \<and> send_reminder failing_env reminder1 = Returns True
   \<and> map ot_id (snd (snd (run_reminder_scan_now failing_env example_db))) = [2, 1]
   \<and> map completed (filter (\<lambda>t. task_id t = 2)
         (rows (fst (snd (run_reminder_scan_now failing_env example_db))))) = [0]
   \<and> map completed (filter (\<lambda>t. task_id t = 1)
         (rows (fst (snd (run_reminder_scan_now failing_env example_db))))) = [1]"
proof -
  have due: "get_overdue_tasks (query_io failing_env) (now_ts failing_env) example_db
               = [reminder2, reminder1]"
    by (simp add: failing_env_def example_env_def example_db_def mk_task_def
        get_overdue_tasks_def select_overdue_def is_overdue_def overdue_of_def
        reminder1_def reminder2_def)
  have cfg: "is_configured failing_env"
    by (simp add: failing_env_def example_env_def)
  have id2: "ot_id reminder2 = 2"
    and id1: "ot_id reminder1 = 1"
    by (simp_all add: reminder1_def reminder2_def)
  have f2: "find (\<lambda>t. ot_id t = 2)
              (get_overdue_tasks (query_io failing_env) (now_ts failing_env) example_db)
            = Some reminder2"
    by (simp add: due id2)
  have f1: "find (\<lambda>t. ot_id t = 1)
              (get_overdue_tasks (query_io failing_env) (now_ts failing_env) example_db)
            = Some reminder1"
    by (simp add: due id1 id2)
  have s2: "send_reminder failing_env reminder2 = Raises"
    and s1: "send_reminder failing_env reminder1 = Returns True"
    and io1: "complete_io failing_env 1 = None"
    by (simp_all add: failing_env_def example_env_def id1 id2)
  have calls: "map ot_id (snd (snd (run_reminder_scan_now failing_env example_db))) = [2, 1]"
    by (simp add: run_reminder_scan_now_def scan_pass_def cfg due Let_def start_state_def
        process_task_def id1 id2 s1 s2)
  have ids: "map ot_id (get_overdue_tasks (query_io failing_env) (now_ts failing_env)
               example_db) = [2, 1]"
    by (simp add: due id1 id2)
  from scan_pass_per_task [OF cfg f2] s2
  have unchanged: "filter (\<lambda>t. task_id t = 2)
         (rows (fst (snd (run_reminder_scan_now failing_env example_db))))
       = filter (\<lambda>t. task_id t = 2) (rows example_db)"
    by simp
  have before: "map completed (filter (\<lambda>t. task_id t = 2) (rows example_db)) = [0]"
    by (simp add: example_db_def mk_task_def)
  from unchanged before
  have left: "map completed (filter (\<lambda>t. task_id t = 2)
         (rows (fst (snd (run_reminder_scan_now failing_env example_db))))) = [0]"
    by (simp only:)
  from scan_pass_per_task [OF cfg f1] s1 io1
  have "\<forall>t \<in> set (rows (fst (snd (run_reminder_scan_now failing_env example_db)))).
          task_id t = 1 \<longrightarrow> completed t \<noteq> 0"
    by simp
  have completed: "map completed (filter (\<lambda>t. task_id t = 1)
         (rows (fst (snd (run_reminder_scan_now failing_env example_db))))) = [1]"
    by code_simp
  from cfg ids s2 s1 calls left completed show ?thesis
    by (intro conjI)
qed

section \<open>Properties of the date resolver\<close>

lemma re_search_literal: "re_search [Lit l] s = Some m \<Longrightarrow> m = l"
proof (induction s)
  case Nil
  then show ?case by (auto split: if_splits)
next
  case (Cons c cs)
  show ?case
  proof (cases "take (length l) (c # cs) = l")
    case True
    have "length (take (length l) (c # cs)) = length l"
      by (rule arg_cong [where f = length, OF True])
    then have "length l \<le> length (c # cs)"
      by simp
    then have "length (c # cs) - (length (c # cs) - length l) = length l"
      by simp
    with True Cons.prems show ?thesis by simp
  next
    case False
    with Cons show ?thesis by simp
  qed
qed

lemma time_phrase_numeric:
  "\<forall>p \<in> set (take 8 time_patterns). time_phrase p m = m"
  by (simp add: time_patterns_def time_phrase_def pattern_source_def)

lemma time_phrase_named:
  "time_phrase [Lit ''tomorrow''] ''tomorrow'' = ''tomorrow''"
  "time_phrase [Lit ''today''] ''today'' = ''today''"
  "time_phrase [Lit ''next week''] ''next week'' = ''next week''"
  "time_phrase [Lit ''next month''] ''next month'' = ''next month''"
  by (simp_all add: time_phrase_def pattern_source_def)

lemma named_patterns:
  "p \<in> set (drop 8 time_patterns) \<Longrightarrow>
     p = [Lit ''tomorrow''] \<or> p = [Lit ''today''] \<or> p = [Lit ''next week'']
     \<or> p = [Lit ''next month'']"
  by (simp add: time_patterns_def)

lemma time_phrase_is_match:
  assumes "p \<in> set time_patterns" and "re_search p s = Some m"
  shows "time_phrase p m = m"
proof -
  have "set time_patterns = set (take 8 time_patterns) \<union> set (drop 8 time_patterns)"
    by (simp only: set_append [symmetric] append_take_drop_id)
  with assms(1) consider "p \<in> set (take 8 time_patterns)" | "p \<in> set (drop 8 time_patterns)"
    by blast
  then show ?thesis
  proof cases
    case 1
    with time_phrase_numeric show ?thesis by blast
  next
    case 2
    from named_patterns [OF 2] show ?thesis
    proof (elim disjE)
      assume p: "p = [Lit ''tomorrow'']"
      with assms(2) have "m = ''tomorrow''" by (simp only: re_search_literal)
      with p show ?thesis by (simp only: time_phrase_named)
    next
      assume p: "p = [Lit ''today'']"
      with assms(2) have "m = ''today''" by (simp only: re_search_literal)
      with p show ?thesis by (simp only: time_phrase_named)
    next
      assume p: "p = [Lit ''next week'']"
      with assms(2) have "m = ''next week''" by (simp only: re_search_literal)
      with p show ?thesis by (simp only: time_phrase_named)
    next
      assume p: "p = [Lit ''next month'']"
      with assms(2) have "m = ''next month''" by (simp only: re_search_literal)
      with p show ?thesis by (simp only: time_phrase_named)
    qed
  qed
qed

lemma search_patterns_none:
  "\<forall>q \<in> set ps. re_search q (lower txt) = None \<Longrightarrow> search_patterns h txt ps = Returns None"
  by (induction ps) simp_all

lemma search_patterns_first:
  "\<forall>q \<in> set ps. re_search q (lower txt) = None \<Longrightarrow> re_search p (lower txt) = Some m \<Longrightarrow>
     search_patterns h txt (ps @ p # qs) = dateparser_parse h (time_phrase p m)"
  by (induction ps) simp_all

lemma search_patterns_parsed:
  "search_patterns h txt ps = Returns (Some parsed) \<Longrightarrow>
     \<exists>phrase. dateparser_parse h phrase = Returns (Some parsed)"
  by (induction ps) (auto split: option.splits)

text \<open>
  Claim C6. When the parser reads the whole text, its result is the one used. When it
  finds nothing in the whole text, the patterns are tried in the order of the list
  against the lowered text: the first pattern that matches decides, the text it matched
  is parsed on its own, and no later pattern is tried. When no pattern matches the
  result is \<open>None\<close>. The first eight patterns of the list are the numeric offsets;
  tomorrow, today, next week and next month follow in this order.
\<close>

theorem parse_date_nlp_two_tier:
  "(dateparser_parse h txt = Returns (Some dt) \<longrightarrow>
      parse_date_nlp h txt = Some (isoformat (stdlib h) (to_utc_seconds h dt)))
   \<and> (dateparser_parse h txt = Returns None \<and> time_patterns = ps @ p # qs
        \<and> (\<forall>q \<in> set ps. re_search q (lower txt) = None)
        \<and> re_search p (lower txt) = Some m \<longrightarrow>
      parse_date_nlp h txt =
        (case dateparser_parse h m of
           Returns (Some dt') \<Rightarrow> Some (isoformat (stdlib h) (to_utc_seconds h dt'))
         | Returns None \<Rightarrow> None
         | Raises \<Rightarrow> None))
   \<and> (dateparser_parse h txt = Returns None
        \<and> (\<forall>q \<in> set time_patterns. re_search q (lower txt) = None) \<longrightarrow>
      parse_date_nlp h txt = None)
   \<and> (\<forall>q \<in> set (take 8 time_patterns). Digits \<in> set q)
   \<and> drop 8 time_patterns
        = [[Lit ''tomorrow''], [Lit ''today''], [Lit ''next week''], [Lit ''next month'']]"
proof (intro conjI impI)
  assume "dateparser_parse h txt = Returns (Some dt)"
  then show "parse_date_nlp h txt = Some (isoformat (stdlib h) (to_utc_seconds h dt))"
    by (simp add: parse_date_nlp_def)
next
  assume a: "dateparser_parse h txt = Returns None \<and> time_patterns = ps @ p # qs
        \<and> (\<forall>q \<in> set ps. re_search q (lower txt) = None)
        \<and> re_search p (lower txt) = Some m"
  then have whole: "dateparser_parse h txt = Returns None"
    and tp: "time_patterns = ps @ p # qs"
    and nomatch: "\<forall>q \<in> set ps. re_search q (lower txt) = None"
    and match: "re_search p (lower txt) = Some m"
    by blast+
  have mem: "p \<in> set time_patterns" unfolding tp by simp
  have phrase: "time_phrase p m = m"
    by (rule time_phrase_is_match [OF mem match])
  have "search_patterns h txt time_patterns = dateparser_parse h (time_phrase p m)"
    unfolding tp by (rule search_patterns_first [OF nomatch match])
  then have found: "search_patterns h txt time_patterns = dateparser_parse h m"
    by (simp only: phrase)
  show "parse_date_nlp h txt =
        (case dateparser_parse h m of
           Returns (Some dt') \<Rightarrow> Some (isoformat (stdlib h) (to_utc_seconds h dt'))
         | Returns None \<Rightarrow> None
         | Raises \<Rightarrow> None)"
    by (simp add: parse_date_nlp_def whole found split: outcome.splits option.splits)
next
  assume "dateparser_parse h txt = Returns None
        \<and> (\<forall>q \<in> set time_patterns. re_search q (lower txt) = None)"
  then show "parse_date_nlp h txt = None"
    by (simp add: parse_date_nlp_def search_patterns_none)
next
  show "\<forall>q \<in> set (take 8 time_patterns). Digits \<in> set q"
    by (simp add: time_patterns_def)
  show "drop 8 time_patterns
        = [[Lit ''tomorrow''], [Lit ''today''], [Lit ''next week''], [Lit ''next month'']]"
    by (simp add: time_patterns_def)
qed
theorem parse_date_nlp_two_tier_witness:
  "parse_date_nlp example_handler ''tomorrow at 3pm''
     = Some (isoformat example_lib (to_utc_seconds example_handler
               \<lparr>wall = 1705417200000000, tzoffset = Some (- 21600000000)\<rparr>))
   \<and> map (\<lambda>q. re_search q (lower ''Call mom tomorrow, 2 Hours from now''))
         (take 5 time_patterns) = [None, None, None, None, None]
   \<and> re_search (time_patterns ! 5) (lower ''Call mom tomorrow, 2 Hours from now'')
        = Some ''2 hours from now''
   \<and> re_search (time_patterns ! 8) (lower ''Call mom tomorrow, 2 Hours from now'')
        = Some ''tomorrow''
   \<and> parse_date_nlp example_handler ''Call mom tomorrow, 2 Hours from now''
        = Some (isoformat example_lib (to_utc_seconds example_handler
                  \<lparr>wall = 1705345200654321, tzoffset = Some (- 21600000000)\<rparr>))
   \<and> map (\<lambda>q. re_search q (lower ''call mom sometime'')) time_patterns
        = replicate 12 None
   \<and> parse_date_nlp example_handler ''call mom sometime'' = None"
proof -
  let ?txt = "''Call mom tomorrow, 2 Hours from now''"
  have low: "lower ?txt = ''call mom tomorrow, 2 hours from now''"
    by code_simp
  have low3: "lower ''call mom sometime'' = ''call mom sometime''"
    by code_simp
  have w1: "dateparser_parse example_handler ''tomorrow at 3pm''
              = Returns (Some \<lparr>wall = 1705417200000000, tzoffset = Some (- 21600000000)\<rparr>)"
    by (simp add: example_handler_def example_parse_def)
  have w2: "dateparser_parse example_handler ?txt = Returns None"
    by (simp add: example_handler_def example_parse_def)
  have w3: "dateparser_parse example_handler ''call mom sometime'' = Returns None"
    by (simp add: example_handler_def example_parse_def)
  have split: "time_patterns = take 5 time_patterns @ (time_patterns ! 5) # drop 6 time_patterns"
    by (simp add: time_patterns_def)
  have none5: "\<forall>q \<in> set (take 5 time_patterns). re_search q (lower ?txt) = None"
    unfolding low by (simp add: time_patterns_def is_digit_def)
  have m5: "re_search (time_patterns ! 5) (lower ?txt) = Some ''2 hours from now''"
    unfolding low by (simp add: time_patterns_def is_digit_def)
  have m8: "re_search (time_patterns ! 8) (lower ?txt) = Some ''tomorrow''"
    unfolding low by (simp add: time_patterns_def is_digit_def)
  have none3: "\<forall>q \<in> set time_patterns. re_search q (lower ''call mom sometime'') = None"
    unfolding low3 by (simp add: time_patterns_def is_digit_def)
  have frag: "dateparser_parse example_handler ''2 hours from now''
              = Returns (Some \<lparr>wall = 1705345200654321, tzoffset = Some (- 21600000000)\<rparr>)"
    by (simp add: example_handler_def example_parse_def)
  have lib: "stdlib example_handler = example_lib"
    by (simp add: example_handler_def)
  from parse_date_nlp_two_tier [of example_handler "''tomorrow at 3pm''"
         "\<lparr>wall = 1705417200000000, tzoffset = Some (- 21600000000)\<rparr>"] w1
  have r1: "parse_date_nlp example_handler ''tomorrow at 3pm''
     = Some (isoformat example_lib (to_utc_seconds example_handler
               \<lparr>wall = 1705417200000000, tzoffset = Some (- 21600000000)\<rparr>))"
    by (simp only: lib) 
  from parse_date_nlp_two_tier [of example_handler ?txt _ "take 5 time_patterns"
         "time_patterns ! 5" "drop 6 time_patterns" "''2 hours from now''"]
       w2 split none5 m5
  have r2: "parse_date_nlp example_handler ?txt
        = Some (isoformat example_lib (to_utc_seconds example_handler
                  \<lparr>wall = 1705345200654321, tzoffset = Some (- 21600000000)\<rparr>))"
    by (simp add: frag lib)
  from parse_date_nlp_two_tier [of example_handler "''call mom sometime''"] w3 none3
  have r3: "parse_date_nlp example_handler ''call mom sometime'' = None"
    by blast
  have l5: "map (\<lambda>q. re_search q (lower ''Call mom tomorrow, 2 Hours from now''))
         (take 5 time_patterns) = [None, None, None, None, None]"
    unfolding low by (simp add: time_patterns_def is_digit_def)
  have l12: "map (\<lambda>q. re_search q (lower ''call mom sometime'')) time_patterns
        = replicate 12 None"
    unfolding low3 by (simp add: time_patterns_def is_digit_def eval_nat_numeral)
  from r1 l5 m5 m8 r2 l12 r3 show ?thesis by (intro conjI)
qed

lemma to_utc_seconds_fields:
  "tzoffset (to_utc_seconds h parsed) = Some 0"
  "wall (to_utc_seconds h parsed) mod 1000000 = 0"
  "tzoffset parsed = None \<Longrightarrow>
     wall (to_utc_seconds h parsed)
       = (wall parsed - offset_at_wall (tzinfo h) (wall parsed))
         - (wall parsed - offset_at_wall (tzinfo h) (wall parsed)) mod 1000000"
  "tzoffset parsed = Some off \<Longrightarrow>
     wall (to_utc_seconds h parsed) = (wall parsed - off) - (wall parsed - off) mod 1000000"
  by (simp_all add: to_utc_seconds_def localize_def astimezone_def instant_us_def
      utc_zone_def replace_microsecond_0_def Let_def minus_mod_eq_mult_div)

text \<open>
  Claim C5. Whenever \<^verbatim>\<open>_parse_date_nlp\<close> returns a string, it is the ISO form of a
  datetime whose zone is UTC and whose microseconds are zero. That datetime is the
  instant the parser returned for some phrase, rounded down to the second: an aware
  result is shifted by its own offset, a naive result by the offset that the zone of the
  handler has at that wall-clock time.
\<close>

theorem parse_date_nlp_utc_seconds:
  assumes "parse_date_nlp h txt = Some s"
  shows "\<exists>phrase parsed.
           dateparser_parse h phrase = Returns (Some parsed)
           \<and> s = isoformat (stdlib h) (to_utc_seconds h parsed)
           \<and> tzoffset (to_utc_seconds h parsed) = Some 0
           \<and> wall (to_utc_seconds h parsed) mod 1000000 = 0
           \<and> (tzoffset parsed = None \<longrightarrow>
                wall (to_utc_seconds h parsed)
                  = (wall parsed - offset_at_wall (tzinfo h) (wall parsed))
                    - (wall parsed - offset_at_wall (tzinfo h) (wall parsed)) mod 1000000)
           \<and> (\<forall>off. tzoffset parsed = Some off \<longrightarrow>
                wall (to_utc_seconds h parsed)
                  = (wall parsed - off) - (wall parsed - off) mod 1000000)"
proof -
  from assms obtain parsed where s: "s = isoformat (stdlib h) (to_utc_seconds h parsed)"
    and src: "dateparser_parse h txt = Returns (Some parsed)
              \<or> search_patterns h txt time_patterns = Returns (Some parsed)"
    by (auto simp: parse_date_nlp_def split: outcome.splits option.splits)
  from src obtain phrase where "dateparser_parse h phrase = Returns (Some parsed)"
    using search_patterns_parsed by blast
  then have p: "dateparser_parse h phrase = Returns (Some parsed)
      \<and> s = isoformat (stdlib h) (to_utc_seconds h parsed)"
    using s by simp
  note f = to_utc_seconds_fields [where h = h and parsed = parsed]
  have "dateparser_parse h phrase = Returns (Some parsed)
           \<and> s = isoformat (stdlib h) (to_utc_seconds h parsed)
           \<and> tzoffset (to_utc_seconds h parsed) = Some 0
           \<and> wall (to_utc_seconds h parsed) mod 1000000 = 0
           \<and> (tzoffset parsed = None \<longrightarrow>
                wall (to_utc_seconds h parsed)
                  = (wall parsed - offset_at_wall (tzinfo h) (wall parsed))
                    - (wall parsed - offset_at_wall (tzinfo h) (wall parsed)) mod 1000000)
           \<and> (\<forall>off. tzoffset parsed = Some off \<longrightarrow>
                wall (to_utc_seconds h parsed)
                  = (wall parsed - off) - (wall parsed - off) mod 1000000)"
    using p f(1) f(2) f(3) f(4) by (intro conjI impI allI) simp_all
  then show ?thesis by (intro exI)
qed

theorem parse_date_nlp_utc_seconds_witness:
  "parse_date_nlp example_handler ''Dentist TOMORROW!''
     = Some (isoformat example_lib \<lparr>wall = 1705467600000000, tzoffset = Some 0\<rparr>)
   \<and> dateparser_parse example_handler ''tomorrow''
     = Returns (Some \<lparr>wall = 1705446000123456, tzoffset = None\<rparr>)
   \<and> to_utc_seconds example_handler \<lparr>wall = 1705446000123456, tzoffset = None\<rparr>
     = \<lparr>wall = 1705467600000000, tzoffset = Some 0\<rparr>
   \<and> (1705467600000000 :: int) mod 1000000 = 0"
proof -
  have low: "lower ''Dentist TOMORROW!'' = ''dentist tomorrow!''"
    by code_simp
  have whole: "dateparser_parse example_handler ''Dentist TOMORROW!'' = Returns None"
    by (simp add: example_handler_def example_parse_def)
  have frag: "dateparser_parse example_handler ''tomorrow''
     = Returns (Some \<lparr>wall = 1705446000123456, tzoffset = None\<rparr>)"
    by (simp add: example_handler_def example_parse_def)
  have found: "search_patterns example_handler ''Dentist TOMORROW!'' time_patterns
     = Returns (Some \<lparr>wall = 1705446000123456, tzoffset = None\<rparr>)"
    unfolding time_patterns_def
    by (simp add: low is_digit_def time_phrase_def pattern_source_def frag)
  have utc: "to_utc_seconds example_handler \<lparr>wall = 1705446000123456, tzoffset = None\<rparr>
     = \<lparr>wall = 1705467600000000, tzoffset = Some 0\<rparr>"
    by (simp add: to_utc_seconds_def localize_def astimezone_def instant_us_def
        utc_zone_def replace_microsecond_0_def Let_def example_handler_def central_zone_def)
  have r: "parse_date_nlp example_handler ''Dentist TOMORROW!''
     = Some (isoformat example_lib \<lparr>wall = 1705467600000000, tzoffset = Some 0\<rparr>)"
    by (simp add: parse_date_nlp_def whole found utc) (simp add: example_handler_def)
  from parse_date_nlp_utc_seconds [OF r] r frag utc show ?thesis
    by simp
qed

lemma next_rowid_positive: "0 \<le> seq d \<Longrightarrow> 0 < next_rowid d"
  using fold_max_ge [of "seq d" "map task_id (rows d)"]
  by (simp add: next_rowid_def)

lemma add_task_no_date:
  "add_task None l clock d txt None prio
     = (next_rowid d,
        \<lparr>rows = rows d @ [\<lparr>task_id = next_rowid d, task_text = txt, due_date = None,
                             due_ts = None, completed = 0, priority = prio,
                             created_at = clock, completed_at = None\<rparr>],
         seq = next_rowid d\<rparr>)"
  by (simp add: add_task_def compute_due_ts_def Let_def)

text \<open>
  Claim C7. The resolver returns \<open>None\<close> when the parser raises on the whole text,
  when the parser finds nothing and no pattern matches, and when the parser raises on
  the phrase of the pattern that matched. Whenever the resolver returns \<open>None\<close> and
  the insert runs, \<^verbatim>\<open>_handle_task_creation\<close> adds one row for the task, with a
  null due date and a null \<^verbatim>\<open>due_ts\<close>, and it answers that the task was added
  unless recording the conversation raises.
\<close>

theorem date_failure_still_creates_task:
  "(dateparser_parse h txt = Raises \<longrightarrow> parse_date_nlp h txt = None)
   \<and> (dateparser_parse h txt = Returns None
        \<and> (\<forall>q \<in> set time_patterns. re_search q (lower txt) = None) \<longrightarrow>
      parse_date_nlp h txt = None)
   \<and> (dateparser_parse h txt = Returns None
        \<and> search_patterns h txt time_patterns = Raises \<longrightarrow>
      parse_date_nlp h txt = None)
   \<and> (the_handler env = h \<and> parse_date_nlp h txt = None \<and> store_io env = None \<longrightarrow>
      snd (handle_task_creation env d task prio txt)
        = \<lparr>rows = rows d @ [\<lparr>task_id = next_rowid d, task_text = task, due_date = None,
                               due_ts = None, completed = 0, priority = prio,
                               created_at = db_clock env, completed_at = None\<rparr>],
           seq = next_rowid d\<rparr>
      \<and> (0 \<le> seq d \<and> add_conversation env txt (Added task (next_rowid d)) \<noteq> Raises \<longrightarrow>
           fst (handle_task_creation env d task prio txt) = Added task (next_rowid d)))"
proof (intro conjI impI)
  assume "dateparser_parse h txt = Raises"
  then show "parse_date_nlp h txt = None"
    by (simp add: parse_date_nlp_def)
next
  assume "dateparser_parse h txt = Returns None
        \<and> (\<forall>q \<in> set time_patterns. re_search q (lower txt) = None)"
  then show "parse_date_nlp h txt = None"
    by (simp add: parse_date_nlp_def search_patterns_none)
next
  assume "dateparser_parse h txt = Returns None
        \<and> search_patterns h txt time_patterns = Raises"
  then show "parse_date_nlp h txt = None"
    by (simp add: parse_date_nlp_def)
next
  assume a: "the_handler env = h \<and> parse_date_nlp h txt = None \<and> store_io env = None"
  then have added: "add_task (store_io env) (stdlib h) (db_clock env) d task None prio
     = (next_rowid d,
        \<lparr>rows = rows d @ [\<lparr>task_id = next_rowid d, task_text = task, due_date = None,
                             due_ts = None, completed = 0, priority = prio,
                             created_at = db_clock env, completed_at = None\<rparr>],
         seq = next_rowid d\<rparr>)"
    by (simp add: add_task_no_date)
  from a have h: "the_handler env = h" and none: "parse_date_nlp h txt = None" by simp_all
  show "snd (handle_task_creation env d task prio txt)
        = \<lparr>rows = rows d @ [\<lparr>task_id = next_rowid d, task_text = task, due_date = None,
                               due_ts = None, completed = 0, priority = prio,
                               created_at = db_clock env, completed_at = None\<rparr>],
           seq = next_rowid d\<rparr>"
    by (simp add: handle_task_creation_def Let_def h none added split: outcome.splits)
  assume b: "0 \<le> seq d \<and> add_conversation env txt (Added task (next_rowid d)) \<noteq> Raises"
  then have pos: "0 < next_rowid d" by (simp add: next_rowid_positive)
  from b obtain ok where "add_conversation env txt (Added task (next_rowid d)) = Returns ok"
    by (cases "add_conversation env txt (Added task (next_rowid d))") auto
  then show "fst (handle_task_creation env d task prio txt) = Added task (next_rowid d)"
    by (simp add: handle_task_creation_def Let_def h none added pos confirmation_def)
qed

theorem date_failure_still_creates_task_witness:
  "parse_date_nlp example_handler ''remind me on the 32nd'' = None
   \<and> parse_date_nlp example_handler ''call mom sometime'' = None
   \<and> parse_date_nlp example_handler ''Dentist next week'' = None
   \<and> handle_task_creation example_creation example_db ''see the dentist'' ''medium''
        ''Dentist next week''
      = (Added ''see the dentist'' 6,
         \<lparr>rows = rows example_db @
             [\<lparr>task_id = 6, task_text = ''see the dentist'', due_date = None, due_ts = None,
               completed = 0, priority = ''medium'', created_at = ''2024-01-15 17:00:00'',
               completed_at = None\<rparr>],
          seq = 6\<rparr>)"
proof -
  have h: "the_handler example_creation = example_handler"
    and io: "store_io example_creation = None"
    and clock: "db_clock example_creation = ''2024-01-15 17:00:00''"
    and conv: "add_conversation example_creation ''Dentist next week''
                 (Added ''see the dentist'' (next_rowid example_db)) \<noteq> Raises"
    by (simp_all add: example_creation_def)
  have w1: "dateparser_parse example_handler ''remind me on the 32nd'' = Raises"
    and w2: "dateparser_parse example_handler ''call mom sometime'' = Returns None"
    and w3: "dateparser_parse example_handler ''Dentist next week'' = Returns None"
    and frag: "dateparser_parse example_handler ''next week'' = Raises"
    by (simp_all add: example_handler_def example_parse_def)
  have low2: "lower ''call mom sometime'' = ''call mom sometime''"
    and low3: "lower ''Dentist next week'' = ''dentist next week''"
    by code_simp+
  have none2: "\<forall>q \<in> set time_patterns. re_search q (lower ''call mom sometime'') = None"
    unfolding low2 by (simp add: time_patterns_def is_digit_def)
  have found3: "search_patterns example_handler ''Dentist next week'' time_patterns = Raises"
    unfolding time_patterns_def
    by (simp add: low3 is_digit_def time_phrase_def pattern_source_def frag)
  have id: "next_rowid example_db = 6" and seq: "0 \<le> seq example_db"
    by (simp_all add: next_rowid_def example_db_def mk_task_def)
  note t = date_failure_still_creates_task
  from t [of example_handler "''remind me on the 32nd''"] w1
  have r1: "parse_date_nlp example_handler ''remind me on the 32nd'' = None" by simp
  from t [of example_handler "''call mom sometime''"] w2 none2
  have r2: "parse_date_nlp example_handler ''call mom sometime'' = None" by simp
  from t [of example_handler "''Dentist next week''"] w3 found3
  have r3: "parse_date_nlp example_handler ''Dentist next week'' = None" by simp
  from t [of example_handler "''Dentist next week''" example_creation example_db
            "''see the dentist''" "''medium''"] h r3 io seq conv
  have "snd (handle_task_creation example_creation example_db ''see the dentist'' ''medium''
               ''Dentist next week'')
        = \<lparr>rows = rows example_db @
             [\<lparr>task_id = 6, task_text = ''see the dentist'', due_date = None, due_ts = None,
               completed = 0, priority = ''medium'', created_at = ''2024-01-15 17:00:00'',
               completed_at = None\<rparr>],
           seq = 6\<rparr>
     \<and> fst (handle_task_creation example_creation example_db ''see the dentist'' ''medium''
               ''Dentist next week'') = Added ''see the dentist'' 6"
    by (simp add: id clock)
  then have "handle_task_creation example_creation example_db ''see the dentist'' ''medium''
        ''Dentist next week''
      = (Added ''see the dentist'' 6,
         \<lparr>rows = rows example_db @
             [\<lparr>task_id = 6, task_text = ''see the dentist'', due_date = None, due_ts = None,
               completed = 0, priority = ''medium'', created_at = ''2024-01-15 17:00:00'',
               completed_at = None\<rparr>],
          seq = 6\<rparr>)"
    by (simp add: prod_eq_iff)
  with r1 r2 r3 show ?thesis by (intro conjI)
qed

section \<open>Properties of the two scanning threads\<close>










end
